theory Spec2Isabelle
  imports Main
begin

section \<open>Strings as Python uses them\<close>

text \<open>
  Python byte strings are modelled as \<^typ>\<open>string\<close>.  The operations below are the
  string methods that \<^verbatim>\<open>python_unittests.py\<close> calls: \<^verbatim>\<open>startswith\<close>,
  \<^verbatim>\<open>endswith\<close>, \<^verbatim>\<open>split\<close> on a one-character separator and
  \<^verbatim>\<open>join\<close>.
\<close>

definition startswith :: "string \<Rightarrow> string \<Rightarrow> bool" where
  "startswith s p = (take (length p) s = p)"

definition endswith :: "string \<Rightarrow> string \<Rightarrow> bool" where
  "endswith s p = (length p \<le> length s \<and> drop (length s - length p) s = p)"

text \<open>\<^verbatim>\<open>s.split(c)\<close> for a separator of one character: never the empty list.\<close>

fun split_on :: "char \<Rightarrow> string \<Rightarrow> string list" where
  "split_on c [] = [[]]"
| "split_on c (x # xs) =
     (if x = c then [] # split_on c xs
      else (case split_on c xs of
              [] \<Rightarrow> [[x]]
            | part # parts \<Rightarrow> (x # part) # parts))"

text \<open>\<^verbatim>\<open>s.join(parts)\<close>.\<close>

fun join_str :: "string \<Rightarrow> string list \<Rightarrow> string" where
  "join_str s [] = []"
| "join_str s [x] = x"
| "join_str s (x # y # ys) = x @ s @ join_str s (y # ys)"

text \<open>\<^verbatim>\<open>s.rstrip('/')\<close>.\<close>

definition rstrip_slash :: "string \<Rightarrow> string" where
  "rstrip_slash s = rev (dropWhile (\<lambda>c. c = CHR ''/'') (rev s))"

text \<open>The helper \<^verbatim>\<open>strip_prefix\<close> of the module (lines 9-13).\<close>

definition strip_prefix :: "string \<Rightarrow> string \<Rightarrow> string" where
  "strip_prefix s p = (if p \<noteq> [] \<and> startswith s p then drop (length p) s else s)"

section \<open>The errors the module raises\<close>

text \<open>
  One constructor for each \<^verbatim>\<open>raise\<close> of the module, named after the condition it
  reports, and one for each exception of the interpreter that the code can run into
  (\<^verbatim>\<open>IndexError\<close> of \<^verbatim>\<open>parts[-1]\<close> on an empty list, \<^verbatim>\<open>ValueError\<close> of
  \<^verbatim>\<open>os.path.relpath\<close> on an empty path).
\<close>

datatype error =
    NotUnderSourceRoot
  | NotUnderTestRoot
  | NotATestFile
  | InvalidTestPath
  | SourceFileNotFound
  | ProjectRootNotFound
  | UnknownLayout
  | IndexError
  | ValueError

section \<open>The environment: editor configuration, process and filesystem\<close>

text \<open>
  The module reads its configuration from the editor (\<^verbatim>\<open>vim.eval('g:...')\<close>) and asks
  the operating system about the working directory, the home directory and the
  filesystem.  All of that is the environment the functions run in.  The field
  \<open>has_relpath\<close> says whether the interpreter provides \<^verbatim>\<open>os.path.relpath\<close>
  (Python 2.6 and later); \<open>HOME\<close> is the value of \<^verbatim>\<open>os.path.expandvars("$HOME")\<close>.
\<close>

record env =
  PyUnitSourceRoot :: string
  PyUnitTestsRoot :: string
  PyUnitTestPrefix :: string
  PyUnitTestsStructure :: string
  ProjRootStopAtHomeDir :: int
  ProjRootIndicators :: "string list"
  getcwd :: string
  HOME :: string
  has_relpath :: bool
  isdir :: "string \<Rightarrow> bool"
  isfile :: "string \<Rightarrow> bool"
  exists :: "string \<Rightarrow> bool"
  realpath :: "string \<Rightarrow> string"

section \<open>The path functions of the standard library (\<^verbatim>\<open>posixpath\<close>)\<close>

text \<open>
  The module works on POSIX paths through \<^verbatim>\<open>os.path\<close>.  The definitions follow the
  functions of CPython 2.7's \<^verbatim>\<open>posixpath.py\<close> statement by statement; the separator
  \<^verbatim>\<open>os.sep\<close> is \<^verbatim>\<open>'/'\<close> and \<^verbatim>\<open>os.path.pardir\<close> is \<^verbatim>\<open>'..'\<close>.
\<close>

definition isabs :: "string \<Rightarrow> bool" where
  "isabs s = startswith s ''/''"

text \<open>\<^verbatim>\<open>os.path.join(a, b)\<close>.\<close>

definition path_join :: "string \<Rightarrow> string \<Rightarrow> string" where
  "path_join a b =
     (if startswith b ''/'' then b
      else if a = [] \<or> endswith a ''/'' then a @ b
      else a @ ''/'' @ b)"

text \<open>\<^verbatim>\<open>os.path.join(*parts)\<close> for a non-empty list of parts.\<close>

fun path_join_list :: "string list \<Rightarrow> string" where
  "path_join_list [] = []"
| "path_join_list (a # ps) = foldl path_join a ps"

text \<open>
  \<^verbatim>\<open>os.path.dirname(p)\<close>: everything up to the last slash, with trailing slashes
  removed unless nothing but slashes is left.
\<close>

definition head_len :: "string \<Rightarrow> nat" where
  "head_len p = length p - length (takeWhile (\<lambda>c. c \<noteq> CHR ''/'') (rev p))"

definition dirname :: "string \<Rightarrow> string" where
  "dirname p =
     (let hd0 = take (head_len p) p
      in if hd0 \<noteq> [] \<and> hd0 \<noteq> replicate (length hd0) CHR ''/'' then rstrip_slash hd0
         else hd0)"

text \<open>
  The loop of \<^verbatim>\<open>os.path.normpath\<close> over the components: \<open>acc\<close> is
  \<^verbatim>\<open>new_comps\<close>, \<open>ini\<close> says whether the path starts with a slash.
\<close>

fun norm_comps :: "bool \<Rightarrow> string list \<Rightarrow> string list \<Rightarrow> string list" where
  "norm_comps ini [] acc = acc"
| "norm_comps ini (c # cs) acc =
     (if c = [] \<or> c = ''.'' then norm_comps ini cs acc
      else if c \<noteq> ''..'' \<or> (\<not> ini \<and> acc = []) \<or> (acc \<noteq> [] \<and> last acc = ''..'')
           then norm_comps ini cs (acc @ [c])
      else if acc \<noteq> [] then norm_comps ini cs (butlast acc)
      else norm_comps ini cs acc)"

definition initial_slashes :: "string \<Rightarrow> nat" where
  "initial_slashes path =
     (if startswith path ''/''
      then (if startswith path ''//'' \<and> \<not> startswith path ''///'' then 2 else 1)
      else 0)"

definition normpath :: "string \<Rightarrow> string" where
  "normpath path =
     (if path = [] then ''.''
      else let n = initial_slashes path;
               comps = norm_comps (n \<noteq> 0) (split_on CHR ''/'' path) [];
               p = replicate n CHR ''/'' @ join_str ''/'' comps
           in if p = [] then ''.'' else p)"

definition abspath :: "env \<Rightarrow> string \<Rightarrow> string" where
  "abspath e path =
     normpath (if isabs path then path else path_join (getcwd e) path)"

text \<open>\<^verbatim>\<open>os.path.splitext(p)\<close>: the extension starts at the last dot of the last
  component, unless that component has only leading dots before it.\<close>

definition splitext :: "string \<Rightarrow> string \<times> string" where
  "splitext p =
     (let base = drop (head_len p) p;
          ext = rev (takeWhile (\<lambda>c. c \<noteq> CHR ''.'') (rev base));
          stem = take (length base - length ext - 1) base
      in if CHR ''.'' \<in> set base \<and> (\<exists>c \<in> set stem. c \<noteq> CHR ''.'')
         then (take (length p - length ext - 1) p, drop (length p - length ext - 1) p)
         else (p, []))"

text \<open>The length of the longest common prefix of two lists
  (\<^verbatim>\<open>len(commonprefix([start_list, path_list]))\<close>).\<close>

fun common_len :: "'a list \<Rightarrow> 'a list \<Rightarrow> nat" where
  "common_len (x # xs) (y # ys) = (if x = y then Suc (common_len xs ys) else 0)"
| "common_len _ _ = 0"

text \<open>\<^verbatim>\<open>os.path.relpath(path, start)\<close>.\<close>

definition os_relpath :: "env \<Rightarrow> string \<Rightarrow> string \<Rightarrow> error + string" where
  "os_relpath e path start =
     (if path = [] then Inl ValueError
      else let start_list = filter (\<lambda>x. x \<noteq> []) (split_on CHR ''/'' (abspath e start));
               path_list = filter (\<lambda>x. x \<noteq> []) (split_on CHR ''/'' (abspath e path));
               i = common_len start_list path_list;
               rel_list = replicate (length start_list - i) ''..'' @ drop i path_list
           in if rel_list = [] then Inr ''.'' else Inr (path_join_list rel_list))"

section \<open>The relative path: \<^verbatim>\<open>_relpath\<close> (lines 192-229)\<close>

text \<open>
  The loop of the fallback (\<^verbatim>\<open>while True\<close>, lines 220-224): it appends one
  \<^verbatim>\<open>os.path.pardir\<close> and takes one \<^verbatim>\<open>dirname\<close> of \<open>fulls\<close> until \<open>fulls\<close> is a
  string prefix of \<open>fullp\<close>.  Nothing in the code bounds the loop, so not returning is
  the value \<open>None\<close>.
\<close>

partial_function (option) strip_dirs ::
  "string \<Rightarrow> string \<Rightarrow> string list \<Rightarrow> (string list \<times> string) option" where
  "strip_dirs fullp fulls path_prefixes =
     (if startswith fullp (dirname fulls)
      then Some (path_prefixes @ [''..''], dirname fulls)
      else strip_dirs fullp (dirname fulls) (path_prefixes @ [''..'']))"

declare strip_dirs.simps [code]

text \<open>The module's own implementation, taken when the standard library's is not.\<close>

definition relpath_fallback :: "env \<Rightarrow> string \<Rightarrow> string \<Rightarrow> (error + string) option" where
  "relpath_fallback e path start =
     (let fullp = abspath e path;
          fulls = abspath e start;
          matchs0 = normpath start;
          matchs = (if \<not> endswith matchs0 ''/'' then matchs0 @ ''/'' else matchs0)
      in if fullp = fulls then Some (Inr ''.'')
         else if startswith fullp matchs then Some (Inr (drop (length matchs) fullp))
         else (case strip_dirs fullp fulls [] of
                 None \<Rightarrow> None
               | Some (path_prefixes, fulls') \<Rightarrow>
                   let remainder0 = drop (length fulls') fullp;
                       remainder = (if startswith remainder0 ''/''
                                    then drop (length ''/'') remainder0 else remainder0);
                       path_prefix = join_str ''/'' path_prefixes
                   in Some (Inr (path_join path_prefix remainder))))"

text \<open>
  \<^verbatim>\<open>_relpath(path, start, try_stdlib)\<close>: the standard library's
  \<^verbatim>\<open>os.path.relpath\<close> when it is asked for and the interpreter has it (an
  \<^verbatim>\<open>AttributeError\<close> otherwise, which the code catches), the fallback in every other
  case.
\<close>

definition relpath :: "env \<Rightarrow> string \<Rightarrow> string \<Rightarrow> bool \<Rightarrow> (error + string) option" where
  "relpath e path start try_stdlib =
     (if try_stdlib \<and> has_relpath e then Some (os_relpath e path start)
      else relpath_fallback e path start)"

section \<open>The test layouts (lines 18-147)\<close>

text \<open>
  A result is \<open>None\<close> when the call does not return, \<open>Some (Inl err)\<close> when it
  raises and \<open>Some (Inr v)\<close> when it returns \<open>v\<close>; \<open>bind_res\<close> runs the rest of a
  function body after a call that returned.
\<close>

definition bind_res ::
  "(error + 'a) option \<Rightarrow> ('a \<Rightarrow> (error + 'b) option) \<Rightarrow> (error + 'b) option" where
  "bind_res m f =
     (case m of None \<Rightarrow> None | Some (Inl err) \<Rightarrow> Some (Inl err) | Some (Inr v) \<Rightarrow> f v)"

subsection \<open>The helpers of \<^verbatim>\<open>BaseTestLayout\<close>\<close>

definition break_down :: "string \<Rightarrow> string list" where
  "break_down path =
     (let parts = split_on CHR ''/'' path
      in if length parts > 0
         then (if last parts = ''__init__.py'' then butlast parts
               else if endswith (last parts) ''.py''
                    then butlast parts @ [take (length (last parts) - length ''.py'') (last parts)]
               else parts)
         else parts)"

text \<open>\<^verbatim>\<open>parts[-1]\<close> of an empty list raises \<^verbatim>\<open>IndexError\<close>.\<close>

definition glue_parts :: "string list \<Rightarrow> bool \<Rightarrow> error + string" where
  "glue_parts parts use_under_under_init =
     (if use_under_under_init then Inr (join_str ''/'' (parts @ [''__init__.py'']))
      else if parts = [] then Inl IndexError
      else Inr (join_str ''/'' (butlast parts @ [last parts @ ''.py''])))"

text \<open>\<^verbatim>\<open>[self.glue_parts(parts, x) for x in (False, True)]\<close>.\<close>

definition glue_both :: "string list \<Rightarrow> error + string list" where
  "glue_both parts =
     (case glue_parts parts False of
        Inl err \<Rightarrow> Inl err
      | Inr plain \<Rightarrow>
          (case glue_parts parts True of
             Inl err \<Rightarrow> Inl err
           | Inr init \<Rightarrow> Inr [plain, init]))"

subsection \<open>\<^verbatim>\<open>SideBySideLayout\<close>\<close>

definition SideBySide_is_test_file :: "env \<Rightarrow> string \<Rightarrow> error + bool" where
  "SideBySide_is_test_file e some_file =
     (let parts = break_down some_file
      in if parts = [] then Inl IndexError
         else Inr (startswith (last parts) (PyUnitTestPrefix e)))"

definition SideBySide_get_test_file :: "env \<Rightarrow> string \<Rightarrow> error + string" where
  "SideBySide_get_test_file e source_file =
     (let parts = break_down source_file
      in if parts = [] then Inl IndexError
         else glue_parts (butlast parts @ [PyUnitTestPrefix e @ last parts]) False)"

definition SideBySide_get_source_candidates :: "env \<Rightarrow> string \<Rightarrow> error + string list" where
  "SideBySide_get_source_candidates e test_file =
     (let parts = break_down test_file
      in if parts = [] then Inl IndexError
         else let filepart = last parts
              in if \<not> startswith filepart (PyUnitTestPrefix e) then Inl NotATestFile
                 else (case glue_parts
                              (butlast parts @ [drop (length (PyUnitTestPrefix e)) filepart])
                              False of
                         Inl err \<Rightarrow> Inl err
                       | Inr candidate \<Rightarrow> Inr [candidate]))"

subsection \<open>\<^verbatim>\<open>FlatLayout\<close>\<close>

definition Flat_is_test_file :: "env \<Rightarrow> string \<Rightarrow> (error + bool) option" where
  "Flat_is_test_file e some_file =
     (if \<not> startswith some_file (PyUnitTestsRoot e) then Some (Inr False)
      else bind_res (relpath e some_file (PyUnitTestsRoot e) True) (\<lambda>rel.
        let parts = break_down rel
        in if length parts \<noteq> 1 then Some (Inr False)
           else Some (Inr (startswith (parts ! 0) (PyUnitTestPrefix e)))))"

definition Flat_get_test_file :: "env \<Rightarrow> string \<Rightarrow> (error + string) option" where
  "Flat_get_test_file e source_file =
     (if \<not> startswith source_file (PyUnitSourceRoot e) then Some (Inl NotUnderSourceRoot)
      else bind_res (relpath e source_file (PyUnitSourceRoot e) True) (\<lambda>rel.
        let parts = break_down rel;
            flat_file_name = join_str ''_'' parts
        in Some (glue_parts ([PyUnitTestsRoot e] @ [PyUnitTestPrefix e @ flat_file_name])
                   False)))"

definition Flat_get_source_candidates :: "env \<Rightarrow> string \<Rightarrow> (error + string list) option" where
  "Flat_get_source_candidates e test_file =
     (if \<not> startswith test_file (PyUnitTestsRoot e) then Some (Inl NotUnderTestRoot)
      else bind_res (relpath e test_file (PyUnitTestsRoot e) True) (\<lambda>rel.
        let parts = break_down rel
        in if length parts \<noteq> 1 then Some (Inl InvalidTestPath)
           else let file_name = strip_prefix (parts ! 0) (PyUnitTestPrefix e)
                in Some (glue_both ([PyUnitSourceRoot e] @ split_on CHR ''_'' file_name))))"

subsection \<open>\<^verbatim>\<open>FollowHierarchyLayout\<close>\<close>

definition FollowHierarchy_is_test_file :: "env \<Rightarrow> string \<Rightarrow> (error + bool) option" where
  "FollowHierarchy_is_test_file e some_file =
     (if \<not> startswith some_file (PyUnitTestsRoot e) then Some (Inr False)
      else bind_res (relpath e some_file (PyUnitTestsRoot e) True) (\<lambda>rel.
        Some (Inr (list_all (\<lambda>p. startswith p (PyUnitTestPrefix e)) (break_down rel)))))"

definition FollowHierarchy_get_test_file :: "env \<Rightarrow> string \<Rightarrow> (error + string) option" where
  "FollowHierarchy_get_test_file e source_file =
     (if \<not> startswith source_file (PyUnitSourceRoot e) then Some (Inl NotUnderSourceRoot)
      else bind_res (relpath e source_file (PyUnitSourceRoot e) True) (\<lambda>rel.
        Some (glue_parts
                ([PyUnitTestsRoot e] @ map (\<lambda>p. PyUnitTestPrefix e @ p) (break_down rel))
                False)))"

definition FollowHierarchy_get_source_candidates ::
  "env \<Rightarrow> string \<Rightarrow> (error + string list) option" where
  "FollowHierarchy_get_source_candidates e test_file =
     (if \<not> startswith test_file (PyUnitTestsRoot e) then Some (Inl NotUnderTestRoot)
      else bind_res (relpath e test_file (PyUnitTestsRoot e) True) (\<lambda>rel.
        Some (glue_both
                ([PyUnitSourceRoot e]
                 @ map (\<lambda>p. strip_prefix p (PyUnitTestPrefix e)) (break_down rel)))))"

subsection \<open>Choosing the layout (\<^verbatim>\<open>get_implementing_class\<close>, lines 150-160)\<close>

datatype layout = FlatLayout | FollowHierarchyLayout | SideBySideLayout

definition get_implementing_class :: "env \<Rightarrow> error + layout" where
  "get_implementing_class e =
     (let test_layout = PyUnitTestsStructure e
      in if test_layout = ''flat'' then Inr FlatLayout
         else if test_layout = ''follow-hierarchy'' then Inr FollowHierarchyLayout
         else if test_layout = ''side-by-side'' then Inr SideBySideLayout
         else Inl UnknownLayout)"

text \<open>The method call \<^verbatim>\<open>impl.get_test_file(path)\<close> on an instance of the class.\<close>

fun get_test_file :: "layout \<Rightarrow> env \<Rightarrow> string \<Rightarrow> (error + string) option" where
  "get_test_file FlatLayout e source_file = Flat_get_test_file e source_file"
| "get_test_file FollowHierarchyLayout e source_file = FollowHierarchy_get_test_file e source_file"
| "get_test_file SideBySideLayout e source_file = Some (SideBySide_get_test_file e source_file)"

fun get_source_candidates :: "layout \<Rightarrow> env \<Rightarrow> string \<Rightarrow> (error + string list) option" where
  "get_source_candidates FlatLayout e test_file = Flat_get_source_candidates e test_file"
| "get_source_candidates FollowHierarchyLayout e test_file =
     FollowHierarchy_get_source_candidates e test_file"
| "get_source_candidates SideBySideLayout e test_file =
     Some (SideBySide_get_source_candidates e test_file)"

section \<open>The project root (lines 165-189)\<close>

definition is_home_dir :: "env \<Rightarrow> string \<Rightarrow> bool" where
  "is_home_dir e path = (realpath e path = HOME e)"

definition is_fs_root :: "env \<Rightarrow> string \<Rightarrow> bool" where
  "is_fs_root e path =
     (realpath e path = ''/'' \<or> (ProjRootStopAtHomeDir e \<noteq> 0 \<and> is_home_dir e path))"

text \<open>
  The \<^verbatim>\<open>while not is_fs_root(path)\<close> loop of \<^verbatim>\<open>find_project_root\<close>: the stop
  condition is tested first, then the indicators, then the path grows by one
  \<^verbatim>\<open>os.path.pardir\<close>.  The exception after the loop is \<open>ProjectRootNotFound\<close>.
\<close>

partial_function (option) find_root_loop :: "env \<Rightarrow> string \<Rightarrow> (error + string) option" where
  "find_root_loop e path =
     (if \<not> is_fs_root e path
      then (if \<exists>i \<in> set (ProjRootIndicators e). exists e (path_join path i)
            then Some (Inr (normpath path))
            else find_root_loop e (path_join path ''..''))
      else Some (Inl ProjectRootNotFound))"

declare find_root_loop.simps [code]

partial_function (option) find_project_root :: "env \<Rightarrow> string \<Rightarrow> (error + string) option" where
  "find_project_root e path =
     (if \<not> isdir e path then find_project_root e (dirname (realpath e path))
      else find_root_loop e path)"

declare find_project_root.simps [code]

definition find_source_root :: "env \<Rightarrow> string \<Rightarrow> (error + string) option" where
  "find_source_root e path =
     bind_res (find_project_root e path) (\<lambda>root.
       Some (Inr (path_join root (PyUnitSourceRoot e))))"

section \<open>Source file to test file and back (lines 232-330)\<close>

definition get_relative_source_path :: "env \<Rightarrow> string \<Rightarrow> bool \<Rightarrow> (error + string) option" where
  "get_relative_source_path e path allow_outside_root =
     bind_res (find_source_root e path) (\<lambda>root.
       if allow_outside_root \<or> startswith (realpath e path) root
       then relpath e path root True
       else Some (Inl NotUnderSourceRoot))"

definition get_tests_root :: "env \<Rightarrow> string \<Rightarrow> (error + string) option" where
  "get_tests_root e path =
     bind_res (find_project_root e path) (\<lambda>root.
       Some (Inr (join_str ''/'' [root, PyUnitTestsRoot e])))"

definition get_test_file_for_source_file :: "env \<Rightarrow> string \<Rightarrow> (error + string) option" where
  "get_test_file_for_source_file e path =
     bind_res (get_relative_source_path e path False) (\<lambda>rel.
       case get_implementing_class e of
         Inl err \<Rightarrow> Some (Inl err)
       | Inr impl \<Rightarrow> get_test_file impl e rel)"

text \<open>
  The two generators nested in \<^verbatim>\<open>find_source_file_for_test_file\<close>, as the lists of
  what they yield, in the order they yield it.
\<close>

fun slashgenerator :: "nat \<Rightarrow> 'a list \<Rightarrow> 'a list \<Rightarrow> 'a list list" where
  "slashgenerator 0 select_from select_last_from = map (\<lambda>opt. [opt]) select_last_from"
| "slashgenerator (Suc n) select_from select_last_from =
     concat (map (\<lambda>opt. map (\<lambda>x. opt # x) (slashgenerator n select_from select_last_from))
               select_from)"

fun interlace :: "'a list \<Rightarrow> 'a list \<Rightarrow> 'a list" where
  "interlace [] ys = ys"
| "interlace (x # xs) [] = x # xs"
| "interlace (x # xs) (y # ys) = x # y # interlace xs ys"

text \<open>
  The guesses of the flat test structure (lines 294-302), in the order the
  \<^verbatim>\<open>for\<close> loop tests them.  \<^verbatim>\<open>len(parts) - 1\<close> is never negative: a split has
  at least one part.
\<close>

definition flat_guesses :: "string \<Rightarrow> string \<Rightarrow> string list" where
  "flat_guesses src_root sourcefile =
     (let (stripped, extension) = splitext sourcefile;
          parts = split_on CHR ''_'' stripped;
          intermediate_pairs = [''/'', ''_''];
          last_pair = [extension, ''/__init__'' @ extension]
      in map (\<lambda>slashes. path_join src_root (concat (interlace parts slashes)))
             (slashgenerator (length parts - 1) intermediate_pairs last_pair))"

definition find_source_file_for_test_file :: "env \<Rightarrow> string \<Rightarrow> (error + string) option" where
  "find_source_file_for_test_file e path =
     bind_res (get_tests_root e path) (\<lambda>testsroot.
     bind_res (relpath e path testsroot True) (\<lambda>rel_path.
       let parts = map (\<lambda>p. strip_prefix p (PyUnitTestPrefix e)) (split_on CHR ''/'' rel_path);
           sourcefile = join_str ''/'' parts
       in bind_res (find_source_root e path) (\<lambda>src_root.
            if PyUnitTestsStructure e = ''flat''
            then (case find (isfile e) (flat_guesses src_root sourcefile) of
                    None \<Rightarrow> Some (Inl SourceFileNotFound)
                  | Some guess \<Rightarrow>
                      if guess = [] then Some (Inl SourceFileNotFound) else Some (Inr guess))
            else (let sourcefile1 = path_join src_root sourcefile
                  in if \<not> isfile e sourcefile1
                     then (let (filepath, extension) = splitext sourcefile1;
                               sourcefile2 = concat [filepath, ''/'', ''__init__'', extension]
                           in if \<not> isfile e sourcefile2 then Some (Inl SourceFileNotFound)
                              else Some (Inr sourcefile2))
                     else Some (Inr sourcefile1)))))"

text \<open>The classification of the module (lines 323-330), not the layouts'.\<close>

definition is_test_file :: "env \<Rightarrow> string \<Rightarrow> (error + bool) option" where
  "is_test_file e path =
     bind_res (get_tests_root e path) (\<lambda>root.
       let testroot = abspath e root;
           path' = abspath e path
       in Some (Inr (startswith path' testroot)))"

section \<open>Notions the properties are stated with\<close>

text \<open>
  A path segment that names a file or a directory: not empty, without a separator,
  and neither \<^verbatim>\<open>.\<close> nor \<^verbatim>\<open>..\<close>.
\<close>

definition segment :: "string \<Rightarrow> bool" where
  "segment s = (s \<noteq> [] \<and> CHR ''/'' \<notin> set s \<and> s \<noteq> ''.'' \<and> s \<noteq> ''..'')"

text \<open>The directory that \<^verbatim>\<open>find_project_root\<close> looks at in round \<open>k\<close> of its loop.\<close>

definition ascend :: "nat \<Rightarrow> string \<Rightarrow> string" where
  "ascend k path = ((\<lambda>p. path_join p ''..'') ^^ k) path"

text \<open>A directory holds one of the configured indicators (the test of the inner
  \<^verbatim>\<open>for\<close> loop of \<^verbatim>\<open>find_project_root\<close>).\<close>

definition has_indicator :: "env \<Rightarrow> string \<Rightarrow> bool" where
  "has_indicator e dir = (\<exists>i \<in> set (ProjRootIndicators e). exists e (path_join dir i))"

text \<open>A path lies under a directory when it is the directory or continues it after
  a separator.\<close>

definition lies_under :: "string \<Rightarrow> string \<Rightarrow> bool" where
  "lies_under path root = (path = root \<or> startswith path (root @ ''/''))"

text \<open>The path that \<^verbatim>\<open>os.path.abspath\<close> normalises.\<close>

definition anchored :: "env \<Rightarrow> string \<Rightarrow> string" where
  "anchored e p = (if isabs p then p else path_join (getcwd e) p)"

section \<open>An example project\<close>

text \<open>
  A project in \<^verbatim>\<open>/proj\<close>, marked by a \<^verbatim>\<open>.git\<close> directory, with sources under
  \<^verbatim>\<open>src\<close> and tests under \<^verbatim>\<open>tests\<close>; the editor runs in the project
  directory.  The filesystem has no symbolic links, so the real path of a path is its
  normalised absolute form.  The examples below are evaluated in it.
\<close>

definition example_dirs :: "string list" where
  "example_dirs =
     [''/'', ''/proj'', ''/proj/.git'', ''/proj/src'', ''/proj/src/pkg'',
      ''/proj/tests'', ''/proj/tests/test_pkg'', ''/proj/tests_extra'']"

definition example_files :: "string list" where
  "example_files =
     [''/proj/src/pkg/__init__.py'', ''/proj/src/pkg/mod.py'', ''/proj/src/pkg_mod.py'',
      ''/proj/src/my_mod.py'', ''/proj/src/data.txt'', ''/proj/src/foo.py'',
      ''/proj/tests/test_pkg_mod.py'', ''/proj/tests/test_pkg/__init__.py'',
      ''/proj/tests_extra/foo.py'']"

definition example_realpath :: "string \<Rightarrow> string" where
  "example_realpath p = normpath (path_join ''/proj'' p)"

definition example_env :: env where
  "example_env =
     \<lparr> PyUnitSourceRoot = ''src'',
       PyUnitTestsRoot = ''tests'',
       PyUnitTestPrefix = ''test_'',
       PyUnitTestsStructure = ''flat'',
       ProjRootStopAtHomeDir = 0,
       ProjRootIndicators = [''.git''],
       getcwd = ''/proj'',
       HOME = ''/home/dev'',
       has_relpath = True,
       isdir = (\<lambda>p. example_realpath p \<in> set example_dirs),
       isfile = (\<lambda>p. example_realpath p \<in> set example_files),
       exists = (\<lambda>p. example_realpath p \<in> set (example_dirs @ example_files)),
       realpath = example_realpath \<rparr>"

section \<open>Splitting and joining\<close>

lemma split_on_nonempty: "split_on c s \<noteq> []"
  by (induction s) (auto split: list.splits)

lemma split_on_Cons:
  "split_on c (x # xs) =
     (if x = c then [] # split_on c xs
      else (x # hd (split_on c xs)) # tl (split_on c xs))"
  using split_on_nonempty [of c xs] by (cases "split_on c xs") auto

lemma split_on_append: "split_on c (xs @ c # ys) = split_on c xs @ split_on c ys"
  by (induction xs) (auto simp: split_on_nonempty split_on_Cons simp del: split_on.simps(2))

lemma split_on_no_sep: "c \<notin> set s \<Longrightarrow> split_on c s = [s]"
  by (induction s) auto

lemma split_on_replicate: "split_on c (replicate n c @ s) = replicate n [] @ split_on c s"
  by (induction n) auto

lemma split_on_elems: "x \<in> set (split_on c s) \<Longrightarrow> c \<notin> set x"
proof (induction s arbitrary: x)
  case Nil
  then show ?case by simp
next
  case (Cons a s)
  show ?case
  proof (cases "a = c")
    case True
    with Cons show ?thesis by auto
  next
    case False
    have ne: "split_on c s \<noteq> []" by (rule split_on_nonempty)
    from Cons.prems False have "x = a # hd (split_on c s) \<or> x \<in> set (tl (split_on c s))"
      by (simp add: split_on_Cons del: split_on.simps(2))
    then show ?thesis
    proof
      assume "x = a # hd (split_on c s)"
      moreover have "c \<notin> set (hd (split_on c s))"
        using Cons.IH [of "hd (split_on c s)"] ne by simp
      ultimately show ?thesis using False by auto
    next
      assume "x \<in> set (tl (split_on c s))"
      then have "x \<in> set (split_on c s)" using ne by (meson list.set_sel(2))
      then show ?thesis by (rule Cons.IH)
    qed
  qed
qed

lemma join_str_Cons: "ys \<noteq> [] \<Longrightarrow> join_str s (x # ys) = x @ s @ join_str s ys"
  by (cases ys) auto

lemma join_str_snoc: "xs \<noteq> [] \<Longrightarrow> join_str s (xs @ [y]) = join_str s xs @ s @ y"
  by (induction s xs rule: join_str.induct) auto

lemma join_str_append:
  "xs \<noteq> [] \<Longrightarrow> ys \<noteq> [] \<Longrightarrow> join_str s (xs @ ys) = join_str s xs @ s @ join_str s ys"
  by (induction s xs rule: join_str.induct) (auto simp: join_str_Cons)

lemma split_on_join:
  "xs \<noteq> [] \<Longrightarrow> \<forall>x \<in> set xs. c \<notin> set x \<Longrightarrow> split_on c (join_str [c] xs) = xs"
proof (induction xs)
  case Nil
  then show ?case by simp
next
  case (Cons x xs)
  show ?case
  proof (cases "xs = []")
    case True
    with Cons.prems show ?thesis by (simp add: split_on_no_sep)
  next
    case False
    then have "join_str [c] (x # xs) = x @ c # join_str [c] xs"
      by (simp add: join_str_Cons)
    with Cons False show ?thesis
      by (simp add: split_on_append split_on_no_sep)
  qed
qed

section \<open>Normalised paths and relative paths\<close>

lemma norm_comps_append:
  "norm_comps ini (cs @ ds) acc = norm_comps ini ds (norm_comps ini cs acc)"
  by (induction cs arbitrary: acc) auto

lemma norm_comps_segments:
  "list_all segment ds \<Longrightarrow> norm_comps ini ds acc = acc @ ds"
  by (induction ds arbitrary: acc) (auto simp: segment_def)

lemma endswith_slash: "endswith a ''/'' = (a \<noteq> [] \<and> last a = CHR ''/'')"
proof (cases a rule: rev_cases)
  case Nil
  then show ?thesis by (simp add: endswith_def)
next
  case (snoc ys y)
  then show ?thesis by (auto simp: endswith_def)
qed

lemma startswith_slash: "startswith p ''/'' = (p \<noteq> [] \<and> hd p = CHR ''/'')"
  by (cases p) (auto simp: startswith_def)


lemma norm_comps_elems:
  "x \<in> set (norm_comps ini cs acc) \<Longrightarrow> x \<in> set acc \<or> (x \<in> set cs \<and> x \<noteq> [])"
proof (induction cs arbitrary: acc)
  case Nil
  then show ?case by simp
next
  case (Cons c cs)
  consider (skip) "c = [] \<or> c = ''.''"
    | (push) "\<not> (c = [] \<or> c = ''.'')"
        "c \<noteq> ''..'' \<or> (\<not> ini \<and> acc = []) \<or> (acc \<noteq> [] \<and> last acc = ''..'')"
    | (pop) "\<not> (c = [] \<or> c = ''.'')"
        "\<not> (c \<noteq> ''..'' \<or> (\<not> ini \<and> acc = []) \<or> (acc \<noteq> [] \<and> last acc = ''..''))"
        "acc \<noteq> []"
    | (stay) "\<not> (c = [] \<or> c = ''.'')"
        "\<not> (c \<noteq> ''..'' \<or> (\<not> ini \<and> acc = []) \<or> (acc \<noteq> [] \<and> last acc = ''..''))"
        "acc = []"
    by blast
  then show ?case
  proof cases
    case skip
    with Cons.prems have "x \<in> set (norm_comps ini cs acc)" by auto
    from Cons.IH [OF this] show ?thesis by auto
  next
    case push
    with Cons.prems have "x \<in> set (norm_comps ini cs (acc @ [c]))" by simp
    from Cons.IH [OF this] push(1) show ?thesis by auto
  next
    case pop
    with Cons.prems have "x \<in> set (norm_comps ini cs (butlast acc))" by simp
    from Cons.IH [OF this] show ?thesis by (auto dest: in_set_butlastD)
  next
    case stay
    with Cons.prems have "x \<in> set (norm_comps ini cs acc)" by simp
    from Cons.IH [OF this] show ?thesis by auto
  qed
qed

lemma filter_nonempty_id: "\<forall>x \<in> set xs. x \<noteq> [] \<Longrightarrow> filter (\<lambda>x. x \<noteq> []) xs = xs"
  by (induction xs) auto

lemma initial_slashes_abs: "isabs p \<Longrightarrow> initial_slashes p = 1 \<or> initial_slashes p = 2"
  by (simp add: initial_slashes_def isabs_def)

lemma common_len_append: "common_len xs (xs @ ys) = length xs"
  by (induction xs) auto

lemma comps_normpath_abs:
  assumes "isabs p"
  shows "filter (\<lambda>x. x \<noteq> []) (split_on CHR ''/'' (normpath p))
         = norm_comps True (split_on CHR ''/'' p) []"
proof -
  define cs where "cs = norm_comps True (split_on CHR ''/'' p) []"
  define n where "n = initial_slashes p"
  from assms have n: "n = 1 \<or> n = 2" unfolding n_def by (rule initial_slashes_abs)
  from assms have pne: "p \<noteq> []" by (auto simp: isabs_def startswith_def)
  have el: "x \<in> set cs \<Longrightarrow> x \<noteq> [] \<and> CHR ''/'' \<notin> set x" for x
    using norm_comps_elems [of x True "split_on CHR ''/'' p" "[]"] split_on_elems [of x "CHR ''/''" p]
    unfolding cs_def by auto
  have np: "normpath p = replicate n CHR ''/'' @ join_str ''/'' cs"
    using n pne unfolding normpath_def Let_def cs_def n_def by auto
  have sp: "filter (\<lambda>x. x \<noteq> []) (split_on CHR ''/'' (join_str ''/'' cs)) = cs"
  proof (cases "cs = []")
    case True
    then show ?thesis by simp
  next
    case False
    then have "split_on CHR ''/'' (join_str ''/'' cs) = cs"
      using el by (simp add: split_on_join)
    then show ?thesis using el by (simp add: filter_nonempty_id)
  qed
  show ?thesis
    unfolding np cs_def [symmetric] by (simp add: split_on_replicate sp)
qed

lemma path_join_segment:
  "a \<noteq> [] \<Longrightarrow> last a \<noteq> CHR ''/'' \<Longrightarrow> p \<noteq> [] \<Longrightarrow> CHR ''/'' \<notin> set p
   \<Longrightarrow> path_join a p = a @ ''/'' @ p"
  by (cases p) (auto simp: path_join_def startswith_slash endswith_slash)

lemma foldl_path_join:
  "a \<noteq> [] \<Longrightarrow> last a \<noteq> CHR ''/'' \<Longrightarrow> \<forall>p \<in> set ps. p \<noteq> [] \<and> CHR ''/'' \<notin> set p
   \<Longrightarrow> foldl path_join a ps = a @ concat (map (\<lambda>p. ''/'' @ p) ps)"
proof (induction ps arbitrary: a)
  case Nil
  then show ?case by simp
next
  case (Cons p ps)
  from Cons.prems have p: "p \<noteq> []" "CHR ''/'' \<notin> set p" by auto
  have lastp: "last p \<noteq> CHR ''/''" using p by (metis last_in_set)
  have pj: "path_join a p = a @ ''/'' @ p"
    using Cons.prems(1,2) p by (rule path_join_segment)
  have "foldl path_join (a @ ''/'' @ p) ps = (a @ ''/'' @ p) @ concat (map (\<lambda>p. ''/'' @ p) ps)"
    using Cons.prems p lastp by (intro Cons.IH) auto
  then show ?case using pj by simp
qed

lemma join_str_concat: "join_str s (a # ps) = a @ concat (map (\<lambda>p. s @ p) ps)"
  by (induction ps arbitrary: a) (auto simp: join_str_Cons)

lemma path_join_list_segments:
  assumes "segs \<noteq> []" "\<forall>p \<in> set segs. p \<noteq> [] \<and> CHR ''/'' \<notin> set p"
  shows "path_join_list segs = join_str ''/'' segs"
proof -
  from assms obtain a ps where segs: "segs = a # ps" by (cases segs) auto
  with assms have a: "a \<noteq> []" "CHR ''/'' \<notin> set a" by auto
  then have "last a \<noteq> CHR ''/''" by (metis last_in_set)
  with a assms segs show ?thesis
    by (simp add: foldl_path_join join_str_concat)
qed

lemma abspath_anchored: "abspath e p = normpath (anchored e p)"
  by (simp add: abspath_def anchored_def)

lemma anchored_child:
  assumes "root \<noteq> []"
  shows "anchored e (root @ CHR ''/'' # rest) = anchored e root @ CHR ''/'' # rest"
proof -
  from assms have "isabs (root @ CHR ''/'' # rest) = isabs root"
    by (cases root) (auto simp: isabs_def startswith_def)
  moreover from assms have "\<not> isabs root \<Longrightarrow>
      path_join (getcwd e) (root @ CHR ''/'' # rest) = path_join (getcwd e) root @ CHR ''/'' # rest"
    by (cases root) (auto simp: isabs_def path_join_def startswith_def)
  ultimately show ?thesis by (simp add: anchored_def)
qed

lemma isabs_anchored: "isabs (getcwd e) \<Longrightarrow> isabs (anchored e p)"
  by (cases "getcwd e") (auto simp: anchored_def isabs_def path_join_def startswith_def)

lemma segment_elems:
  "list_all segment segs \<Longrightarrow> \<forall>p \<in> set segs. p \<noteq> [] \<and> CHR ''/'' \<notin> set p"
  by (auto simp: list_all_iff segment_def)

lemma os_relpath_child:
  assumes cwd: "isabs (getcwd e)" and root: "root \<noteq> []"
    and segs: "segs \<noteq> []" "list_all segment segs"
  shows "os_relpath e (join_str ''/'' (root # segs)) root = Inr (join_str ''/'' segs)"
proof -
  define A where "A = norm_comps True (split_on CHR ''/'' (anchored e root)) []"
  have path: "join_str ''/'' (root # segs) = root @ CHR ''/'' # join_str ''/'' segs"
    using segs(1) by (simp add: join_str_Cons)
  have sl: "\<forall>p \<in> set segs. CHR ''/'' \<notin> set p"
    using segment_elems [OF segs(2)] by simp
  have start_list: "filter (\<lambda>x. x \<noteq> []) (split_on CHR ''/'' (abspath e root)) = A"
    unfolding abspath_anchored A_def by (rule comps_normpath_abs) (rule isabs_anchored [OF cwd])
  have "filter (\<lambda>x. x \<noteq> []) (split_on CHR ''/'' (abspath e (join_str ''/'' (root # segs))))
        = norm_comps True (split_on CHR ''/'' (anchored e root @ CHR ''/'' # join_str ''/'' segs)) []"
    unfolding abspath_anchored path anchored_child [OF root]
    using isabs_anchored [OF cwd, of "root @ CHR ''/'' # join_str ''/'' segs"]
    unfolding anchored_child [OF root]
    by (rule comps_normpath_abs)
  also have "\<dots> = A @ segs"
    using segs sl
    by (simp add: split_on_append split_on_join norm_comps_append norm_comps_segments A_def)
  finally have path_list:
    "filter (\<lambda>x. x \<noteq> []) (split_on CHR ''/'' (abspath e (join_str ''/'' (root # segs)))) = A @ segs" .
  have ne: "join_str ''/'' (root # segs) \<noteq> []"
    using root path by simp
  show ?thesis
    unfolding os_relpath_def Let_def start_list path_list
    using ne segs path_join_list_segments [OF segs(1) segment_elems [OF segs(2)]]
    by (simp add: common_len_append)
qed

section \<open>Breaking paths down and gluing them\<close>

lemma endswith_append: "endswith (a @ b) b"
  by (simp add: endswith_def)

lemma split_on_join_snoc:
  "\<forall>x \<in> set xs. c \<notin> set x \<Longrightarrow> c \<notin> set y \<Longrightarrow> split_on c (join_str [c] (xs @ [y])) = xs @ [y]"
  by (rule split_on_join) auto

lemma break_down_module:
  assumes "\<forall>x \<in> set dirs. CHR ''/'' \<notin> set x" "CHR ''/'' \<notin> set name" "name \<noteq> ''__init__''"
  shows "break_down (join_str ''/'' (dirs @ [name @ ''.py''])) = dirs @ [name]"
proof -
  have "split_on CHR ''/'' (join_str ''/'' (dirs @ [name @ ''.py''])) = dirs @ [name @ ''.py'']"
    using assms by (intro split_on_join_snoc) auto
  moreover have "name @ ''.py'' \<noteq> ''__init__.py''" using assms(3) by auto
  ultimately show ?thesis
    by (simp add: break_down_def endswith_append)
qed

lemma break_down_init:
  assumes "\<forall>x \<in> set dirs. CHR ''/'' \<notin> set x"
  shows "break_down (join_str ''/'' (dirs @ [''__init__.py''])) = dirs"
proof -
  have "split_on CHR ''/'' (join_str ''/'' (dirs @ [''__init__.py''])) = dirs @ [''__init__.py'']"
    using assms by (intro split_on_join_snoc) auto
  then show ?thesis
    by (simp add: break_down_def)
qed

lemma glue_parts_plain: "glue_parts (dirs @ [name]) False = Inr (join_str ''/'' (dirs @ [name @ ''.py'']))"
  by (simp add: glue_parts_def)

lemma glue_both_snoc:
  "glue_both (dirs @ [name])
   = Inr [join_str ''/'' (dirs @ [name @ ''.py'']), join_str ''/'' (dirs @ [name, ''__init__.py''])]"
  by (simp add: glue_both_def glue_parts_def)

lemma strip_prefix_append: "strip_prefix (p @ s) p = s"
  by (simp add: strip_prefix_def startswith_def)

lemma startswith_append: "startswith (p @ s) p"
  by (simp add: startswith_def)

lemma startswith_join: "startswith (join_str ''/'' (root # segs)) root"
  by (cases segs) (simp_all add: startswith_def)

lemma segment_prefixed:
  "CHR ''/'' \<notin> set p \<Longrightarrow> segment s \<Longrightarrow> segment (p @ s)"
  by (auto simp: segment_def append_eq_Cons_conv Cons_eq_append_conv)

lemma segment_py: "CHR ''/'' \<notin> set s \<Longrightarrow> segment (s @ ''.py'')"
  by (auto simp: segment_def append_eq_Cons_conv)

lemma join_split: "join_str [c] (split_on c s) = s"
proof (induction s)
  case Nil
  then show ?case by simp
next
  case (Cons x xs)
  have ne: "split_on c xs \<noteq> []" by (rule split_on_nonempty)
  then obtain h t where ht: "split_on c xs = h # t" by (cases "split_on c xs") auto
  show ?case
  proof (cases "x = c")
    case True
    then show ?thesis using Cons ne by (simp add: join_str_Cons)
  next
    case False
    then show ?thesis using Cons ht by (cases t) auto
  qed
qed

lemma break_down_file:
  assumes "CHR ''/'' \<notin> set name" "name \<noteq> ''__init__''"
  shows "break_down (pre @ CHR ''/'' # name @ ''.py'') = split_on CHR ''/'' pre @ [name]"
proof -
  have "split_on CHR ''/'' (pre @ CHR ''/'' # name @ ''.py'') = split_on CHR ''/'' pre @ [name @ ''.py'']"
    using assms(1) by (simp add: split_on_append split_on_no_sep)
  moreover have "name @ ''.py'' \<noteq> ''__init__.py''" using assms(2) by auto
  ultimately show ?thesis
    by (simp add: break_down_def endswith_append)
qed

lemma join_split_snoc: "join_str ''/'' (split_on CHR ''/'' pre @ [x]) = pre @ CHR ''/'' # x"
  using join_str_snoc [of "split_on CHR ''/'' pre" "''/''" x] join_split [of "CHR ''/''" pre]
  by (simp add: split_on_nonempty)

lemma SideBySide_forward:
  assumes "CHR ''/'' \<notin> set name" "name \<noteq> ''__init__''"
  shows "SideBySide_get_test_file e (pre @ CHR ''/'' # name @ ''.py'')
         = Inr (pre @ CHR ''/'' # PyUnitTestPrefix e @ name @ ''.py'')"
  using assms
  by (simp add: SideBySide_get_test_file_def break_down_file glue_parts_def join_split_snoc)

lemma SideBySide_backward:
  assumes "CHR ''/'' \<notin> set name" "CHR ''/'' \<notin> set (PyUnitTestPrefix e)"
    "PyUnitTestPrefix e @ name \<noteq> ''__init__''"
  shows "SideBySide_get_source_candidates e (pre @ CHR ''/'' # PyUnitTestPrefix e @ name @ ''.py'')
         = Inr [pre @ CHR ''/'' # name @ ''.py'']"
proof -
  have "break_down (pre @ CHR ''/'' # (PyUnitTestPrefix e @ name) @ ''.py'')
        = split_on CHR ''/'' pre @ [PyUnitTestPrefix e @ name]"
    using assms by (intro break_down_file) auto
  then show ?thesis
    by (simp add: SideBySide_get_source_candidates_def glue_parts_def join_split_snoc
        startswith_append)
qed

section \<open>The layouts on well-formed paths\<close>

lemma relpath_stdlib: "has_relpath e \<Longrightarrow> relpath e p start True = Some (os_relpath e p start)"
  by (simp add: relpath_def)

lemma set_join_str: "set (join_str s xs) \<subseteq> set s \<union> \<Union> (set ` set xs)"
  by (induction s xs rule: join_str.induct) auto

lemma list_all_segment_slash: "list_all segment xs \<Longrightarrow> \<forall>x \<in> set xs. CHR ''/'' \<notin> set x"
  by (auto simp: list_all_iff segment_def)

lemma FollowHierarchy_forward:
  assumes "isabs (getcwd e)" "has_relpath e" "PyUnitSourceRoot e \<noteq> []"
    and "list_all segment dirs" "CHR ''/'' \<notin> set name" "name \<noteq> ''__init__''"
  shows "FollowHierarchy_get_test_file e
           (join_str ''/'' (PyUnitSourceRoot e # dirs @ [name @ ''.py'']))
         = Some (Inr (join_str ''/'' (PyUnitTestsRoot e
                        # map (\<lambda>p. PyUnitTestPrefix e @ p) dirs
                        @ [PyUnitTestPrefix e @ name @ ''.py''])))"
proof -
  have segs: "list_all segment (dirs @ [name @ ''.py''])"
    using assms(4,5) by (simp add: segment_py)
  have rel: "os_relpath e (join_str ''/'' (PyUnitSourceRoot e # dirs @ [name @ ''.py'']))
               (PyUnitSourceRoot e) = Inr (join_str ''/'' (dirs @ [name @ ''.py'']))"
    using assms(1,3) segs by (intro os_relpath_child) auto
  have bd: "break_down (join_str ''/'' (dirs @ [name @ ''.py''])) = dirs @ [name]"
    using assms(4,5,6) by (intro break_down_module) (auto dest: list_all_segment_slash)
  have glue: "glue_parts ((PyUnitTestsRoot e # map (\<lambda>p. PyUnitTestPrefix e @ p) dirs)
                 @ [PyUnitTestPrefix e @ name]) False
              = Inr (join_str ''/'' ((PyUnitTestsRoot e # map (\<lambda>p. PyUnitTestPrefix e @ p) dirs)
                 @ [(PyUnitTestPrefix e @ name) @ ''.py'']))"
    by (rule glue_parts_plain)
  show ?thesis
    using glue
    by (simp add: FollowHierarchy_get_test_file_def startswith_join relpath_stdlib [OF assms(2)]
        rel bind_res_def bd)
qed

lemma FollowHierarchy_backward:
  assumes "isabs (getcwd e)" "has_relpath e" "PyUnitTestsRoot e \<noteq> []"
    and "CHR ''/'' \<notin> set (PyUnitTestPrefix e)"
    and "list_all segment dirs" "CHR ''/'' \<notin> set name"
    and "PyUnitTestPrefix e @ name \<noteq> ''__init__''"
  shows "FollowHierarchy_get_source_candidates e
           (join_str ''/'' (PyUnitTestsRoot e # map (\<lambda>p. PyUnitTestPrefix e @ p) dirs
                        @ [PyUnitTestPrefix e @ name @ ''.py'']))
         = Some (Inr [join_str ''/'' (PyUnitSourceRoot e # dirs @ [name @ ''.py'']),
                      join_str ''/'' (PyUnitSourceRoot e # dirs @ [name, ''__init__.py''])])"
proof -
  let ?pre = "PyUnitTestPrefix e"
  let ?tdirs = "map (\<lambda>p. ?pre @ p) dirs"
  have tdirs: "list_all segment ?tdirs"
    using assms(4,5) by (simp add: list_all_iff segment_prefixed)
  have last_seg: "segment ((?pre @ name) @ ''.py'')"
    using assms(4,6) by (intro segment_py) auto
  have segs: "list_all segment (?tdirs @ [?pre @ name @ ''.py''])"
    using tdirs last_seg by simp
  have rel: "os_relpath e (join_str ''/'' (PyUnitTestsRoot e # ?tdirs @ [?pre @ name @ ''.py'']))
               (PyUnitTestsRoot e) = Inr (join_str ''/'' (?tdirs @ [?pre @ name @ ''.py'']))"
    using assms(1,3) segs by (intro os_relpath_child) auto
  have "break_down (join_str ''/'' (?tdirs @ [(?pre @ name) @ ''.py''])) = ?tdirs @ [?pre @ name]"
    using assms(4,6,7) tdirs by (intro break_down_module) (auto dest: list_all_segment_slash)
  then have bd: "break_down (join_str ''/'' (?tdirs @ [?pre @ name @ ''.py''])) = ?tdirs @ [?pre @ name]"
    by simp
  have strip: "map (\<lambda>p. strip_prefix p ?pre) (?tdirs @ [?pre @ name]) = dirs @ [name]"
    by (simp add: strip_prefix_append comp_def)
  have glue: "glue_both ((PyUnitSourceRoot e # dirs) @ [name])
     = Inr [join_str ''/'' ((PyUnitSourceRoot e # dirs) @ [name @ ''.py'']),
            join_str ''/'' ((PyUnitSourceRoot e # dirs) @ [name, ''__init__.py''])]"
    by (rule glue_both_snoc)
  show ?thesis
    unfolding FollowHierarchy_get_source_candidates_def
    using glue strip
    by (simp add: startswith_join relpath_stdlib [OF assms(2)] rel bind_res_def bd)
qed

lemma no_slash_join_underscore:
  assumes "\<forall>x \<in> set xs. CHR ''/'' \<notin> set x"
  shows "CHR ''/'' \<notin> set (join_str ''_'' xs)"
  using set_join_str [of "''_''" xs] assms by auto

lemma Flat_forward:
  assumes "isabs (getcwd e)" "has_relpath e" "PyUnitSourceRoot e \<noteq> []"
    and "list_all segment dirs" "CHR ''/'' \<notin> set name" "name \<noteq> ''__init__''"
  shows "Flat_get_test_file e (join_str ''/'' (PyUnitSourceRoot e # dirs @ [name @ ''.py'']))
         = Some (Inr (join_str ''/'' [PyUnitTestsRoot e,
                        PyUnitTestPrefix e @ join_str ''_'' (dirs @ [name]) @ ''.py'']))"
proof -
  have segs: "list_all segment (dirs @ [name @ ''.py''])"
    using assms(4,5) by (simp add: segment_py)
  have rel: "os_relpath e (join_str ''/'' (PyUnitSourceRoot e # dirs @ [name @ ''.py'']))
               (PyUnitSourceRoot e) = Inr (join_str ''/'' (dirs @ [name @ ''.py'']))"
    using assms(1,3) segs by (intro os_relpath_child) auto
  have bd: "break_down (join_str ''/'' (dirs @ [name @ ''.py''])) = dirs @ [name]"
    using assms(4,5,6) by (intro break_down_module) (auto dest: list_all_segment_slash)
  show ?thesis
    by (simp add: Flat_get_test_file_def startswith_join relpath_stdlib [OF assms(2)]
        rel bind_res_def bd glue_parts_def)
qed

lemma Flat_backward:
  assumes "isabs (getcwd e)" "has_relpath e" "PyUnitTestsRoot e \<noteq> []"
    and "CHR ''/'' \<notin> set (PyUnitTestPrefix e)"
    and "parts \<noteq> []" "\<forall>p \<in> set parts. CHR ''/'' \<notin> set p \<and> CHR ''_'' \<notin> set p"
    and "PyUnitTestPrefix e @ join_str ''_'' parts \<noteq> ''__init__''"
  shows "Flat_get_source_candidates e
           (join_str ''/'' [PyUnitTestsRoot e,
                        PyUnitTestPrefix e @ join_str ''_'' parts @ ''.py''])
         = Some (Inr [join_str ''/'' (PyUnitSourceRoot e # butlast parts @ [last parts @ ''.py'']),
                      join_str ''/'' (PyUnitSourceRoot e # parts @ [''__init__.py''])])"
proof -
  let ?pre = "PyUnitTestPrefix e"
  let ?flat = "join_str ''_'' parts"
  have nosl: "CHR ''/'' \<notin> set (?pre @ ?flat)"
    using assms(4,6) no_slash_join_underscore [of parts] by auto
  have seg: "list_all segment [(?pre @ ?flat) @ ''.py'']"
    using nosl by (simp add: segment_py del: append_assoc)
  have "os_relpath e (join_str ''/'' (PyUnitTestsRoot e # [(?pre @ ?flat) @ ''.py'']))
               (PyUnitTestsRoot e) = Inr (join_str ''/'' [(?pre @ ?flat) @ ''.py''])"
    using assms(1,3) seg by (intro os_relpath_child) auto
  then have rel: "os_relpath e (join_str ''/'' [PyUnitTestsRoot e, ?pre @ ?flat @ ''.py''])
               (PyUnitTestsRoot e) = Inr (?pre @ ?flat @ ''.py'')"
    by simp
  have "break_down (join_str ''/'' ([] @ [(?pre @ ?flat) @ ''.py''])) = [] @ [?pre @ ?flat]"
    using nosl assms(7) by (intro break_down_module) auto
  then have bd: "break_down (?pre @ ?flat @ ''.py'') = [?pre @ ?flat]"
    by simp
  have sp: "split_on CHR ''_'' ?flat = parts"
    using assms(5,6) by (intro split_on_join) auto
  have glue: "glue_both ((PyUnitSourceRoot e # butlast parts) @ [last parts])
     = Inr [join_str ''/'' ((PyUnitSourceRoot e # butlast parts) @ [last parts @ ''.py'']),
            join_str ''/'' ((PyUnitSourceRoot e # butlast parts) @ [last parts, ''__init__.py''])]"
    by (rule glue_both_snoc)
  have parts: "butlast parts @ [last parts] = parts"
    using assms(5) by simp
  have parts2: "butlast parts @ [last parts, ''__init__.py''] = parts @ [''__init__.py'']"
    using assms(5) by (metis append.assoc append_Cons append_Nil parts)
  have st: "startswith (join_str ''/'' [PyUnitTestsRoot e, ?pre @ ?flat @ ''.py'']) (PyUnitTestsRoot e)"
    by (rule startswith_join)
  show ?thesis
    unfolding Flat_get_source_candidates_def
    using glue parts parts2 st
    by (simp add: relpath_stdlib [OF assms(2)] rel bind_res_def bd strip_prefix_append sp
        del: join_str.simps)
qed

lemma FollowHierarchy_forward_init:
  assumes "isabs (getcwd e)" "has_relpath e" "PyUnitSourceRoot e \<noteq> []"
    and "list_all segment dirs" "segment d"
  shows "FollowHierarchy_get_test_file e
           (join_str ''/'' (PyUnitSourceRoot e # dirs @ [d, ''__init__.py'']))
         = Some (Inr (join_str ''/'' (PyUnitTestsRoot e
                        # map (\<lambda>p. PyUnitTestPrefix e @ p) dirs
                        @ [PyUnitTestPrefix e @ d @ ''.py''])))"
proof -
  have segs: "list_all segment ((dirs @ [d]) @ [''__init__.py''])"
    using assms(4,5) by (simp add: segment_def)
  have rel: "os_relpath e (join_str ''/'' (PyUnitSourceRoot e # (dirs @ [d]) @ [''__init__.py'']))
               (PyUnitSourceRoot e) = Inr (join_str ''/'' ((dirs @ [d]) @ [''__init__.py'']))"
    using assms(1,3) segs by (intro os_relpath_child) auto
  have bd: "break_down (join_str ''/'' ((dirs @ [d]) @ [''__init__.py''])) = dirs @ [d]"
    using assms(4,5) by (intro break_down_init) (auto dest: list_all_segment_slash simp: segment_def)
  have glue: "glue_parts ((PyUnitTestsRoot e # map (\<lambda>p. PyUnitTestPrefix e @ p) dirs)
                 @ [PyUnitTestPrefix e @ d]) False
              = Inr (join_str ''/'' ((PyUnitTestsRoot e # map (\<lambda>p. PyUnitTestPrefix e @ p) dirs)
                 @ [(PyUnitTestPrefix e @ d) @ ''.py'']))"
    by (rule glue_parts_plain)
  have st: "startswith (join_str ''/'' (PyUnitSourceRoot e # (dirs @ [d]) @ [''__init__.py''])) (PyUnitSourceRoot e)"
    by (rule startswith_join)
  show ?thesis
    using glue rel bd st
    by (simp add: FollowHierarchy_get_test_file_def relpath_stdlib [OF assms(2)] bind_res_def
        del: join_str.simps)
qed

lemma Flat_forward_init:
  assumes "isabs (getcwd e)" "has_relpath e" "PyUnitSourceRoot e \<noteq> []"
    and "list_all segment dirs" "segment d"
  shows "Flat_get_test_file e (join_str ''/'' (PyUnitSourceRoot e # dirs @ [d, ''__init__.py'']))
         = Some (Inr (join_str ''/'' [PyUnitTestsRoot e,
                        PyUnitTestPrefix e @ join_str ''_'' (dirs @ [d]) @ ''.py'']))"
proof -
  have segs: "list_all segment ((dirs @ [d]) @ [''__init__.py''])"
    using assms(4,5) by (simp add: segment_def)
  have rel: "os_relpath e (join_str ''/'' (PyUnitSourceRoot e # (dirs @ [d]) @ [''__init__.py'']))
               (PyUnitSourceRoot e) = Inr (join_str ''/'' ((dirs @ [d]) @ [''__init__.py'']))"
    using assms(1,3) segs by (intro os_relpath_child) auto
  have bd: "break_down (join_str ''/'' ((dirs @ [d]) @ [''__init__.py''])) = dirs @ [d]"
    using assms(4,5) by (intro break_down_init) (auto dest: list_all_segment_slash simp: segment_def)
  have st: "startswith (join_str ''/'' (PyUnitSourceRoot e # (dirs @ [d]) @ [''__init__.py''])) (PyUnitSourceRoot e)"
    by (rule startswith_join)
  show ?thesis
    using rel bd st
    by (simp add: Flat_get_test_file_def relpath_stdlib [OF assms(2)] bind_res_def glue_parts_def
        del: join_str.simps)
qed

lemma join_str_root_snoc:
  "join_str ''/'' (root # dirs @ [x]) = join_str ''/'' (root # dirs) @ CHR ''/'' # x"
  using join_str_snoc [of "root # dirs" "''/''" x] by simp

lemma segment_butlast_last:
  assumes "parts \<noteq> []" "list_all segment parts"
  shows "list_all segment (butlast parts)" "segment (last parts)"
  using assms by (auto simp: list_all_iff dest: in_set_butlastD)

lemma length_break_down:
  "length (break_down rel)
   = (if last (split_on CHR ''/'' rel) = ''__init__.py''
      then length (split_on CHR ''/'' rel) - 1 else length (split_on CHR ''/'' rel))"
  by (simp add: break_down_def Let_def split_on_nonempty)

lemma glue_both_Cons:
  assumes "parts \<noteq> []"
  shows "glue_both (root # parts)
         = Inr [join_str ''/'' (root # butlast parts @ [last parts @ ''.py'']),
                join_str ''/'' (root # parts @ [''__init__.py''])]"
  using assms by (simp add: glue_both_def glue_parts_def)

section \<open>The search for the project root\<close>

lemma ascend_Suc: "ascend (Suc k) path = ascend k (path_join path ''..'')"
  unfolding ascend_def by (simp only: funpow_Suc_right o_apply)

lemma ascend_0: "ascend 0 path = path"
  by (simp add: ascend_def)

lemma find_root_loop_step:
  "\<not> is_fs_root e path \<Longrightarrow> \<not> has_indicator e path
   \<Longrightarrow> find_root_loop e path = find_root_loop e (path_join path ''..'')"
  by (subst find_root_loop.simps) (simp add: has_indicator_def)

lemma find_root_loop_stop:
  "is_fs_root e path \<Longrightarrow> find_root_loop e path = Some (Inl ProjectRootNotFound)"
  by (subst find_root_loop.simps) simp


lemma find_root_loop_ascend:
  "\<forall>j<k. \<not> is_fs_root e (ascend j path) \<and> \<not> has_indicator e (ascend j path)
   \<Longrightarrow> find_root_loop e path = find_root_loop e (ascend k path)"
proof (induction k arbitrary: path)
  case 0
  then show ?case by (simp add: ascend_0)
next
  case (Suc k)
  from Suc.prems have first: "\<not> is_fs_root e path" "\<not> has_indicator e path"
    using ascend_0 [of path] by (metis zero_less_Suc)+
  have rest: "\<forall>j<k. \<not> is_fs_root e (ascend j (path_join path ''..''))
                  \<and> \<not> has_indicator e (ascend j (path_join path ''..''))"
    using Suc.prems by (auto simp: ascend_Suc [symmetric])
  show ?case
    using find_root_loop_step [OF first] Suc.IH [OF rest] by (simp add: ascend_Suc)
qed

lemma find_project_root_dir:
  "isdir e path \<Longrightarrow> find_project_root e path = find_root_loop e path"
  by (subst find_project_root.simps) simp

lemma find_project_root_file:
  "\<not> isdir e path \<Longrightarrow> find_project_root e path = find_project_root e (dirname (realpath e path))"
  by (subst find_project_root.simps) simp

lemma find_project_root_start:
  assumes "(isdir e path \<and> d = path)
           \<or> (\<not> isdir e path \<and> d = dirname (realpath e path) \<and> isdir e d)"
  shows "find_project_root e path = find_root_loop e d"
  using assms
proof
  assume "isdir e path \<and> d = path"
  then show ?thesis by (simp add: find_project_root_dir)
next
  assume a: "\<not> isdir e path \<and> d = dirname (realpath e path) \<and> isdir e d"
  then have "find_project_root e path = find_project_root e d"
    by (simp add: find_project_root_file)
  also have "\<dots> = find_root_loop e d"
    using a find_project_root_dir [of e d] by blast
  finally show ?thesis .
qed

section \<open>The guesses of the flat test structure\<close>

lemma length_slashgenerator:
  "length (slashgenerator k A B) = length A ^ k * length B"
  by (induction k) (simp_all add: length_concat o_def sum_list_triv)

lemma set_slashgenerator:
  "set (slashgenerator k A B)
   = {seps @ [final] | seps final. length seps = k \<and> set seps \<subseteq> set A \<and> final \<in> set B}"
proof (induction k)
  case 0
  then show ?case by auto
next
  case (Suc k)
  show ?case
  proof (rule set_eqI, rule iffI)
    fix x
    assume "x \<in> set (slashgenerator (Suc k) A B)"
    then obtain opt y where o: "opt \<in> set A" "y \<in> set (slashgenerator k A B)" "x = opt # y"
      by auto
    with Suc obtain seps final where
      y: "y = seps @ [final]" "length seps = k" "set seps \<subseteq> set A" "final \<in> set B"
      by auto
    have "x = (opt # seps) @ [final]" "length (opt # seps) = Suc k" "set (opt # seps) \<subseteq> set A"
      using o y by auto
    with y(4) show "x \<in> {seps @ [final] | seps final.
        length seps = Suc k \<and> set seps \<subseteq> set A \<and> final \<in> set B}"
      by blast
  next
    fix x
    assume "x \<in> {seps @ [final] | seps final.
        length seps = Suc k \<and> set seps \<subseteq> set A \<and> final \<in> set B}"
    then obtain seps final where
      x: "x = seps @ [final]" "length seps = Suc k" "set seps \<subseteq> set A" "final \<in> set B"
      by blast
    from x(2) obtain opt rest where s: "seps = opt # rest" "length rest = k"
      by (auto simp: length_Suc_conv)
    have "rest @ [final] \<in> set (slashgenerator k A B)"
      using Suc x s by auto
    then show "x \<in> set (slashgenerator (Suc k) A B)"
      using x s by auto
  qed
qed

lemma normpath_nonempty: "normpath p \<noteq> []"
  by (simp add: normpath_def Let_def)

lemma find_root_loop_nonempty:
  assumes "find_root_loop e path = Some y"
  shows "y \<noteq> Inr []"
  using assms
  by (rule find_root_loop.raw_induct [where P = "\<lambda>e path y. y \<noteq> Inr []", rotated])
     (auto split: if_splits simp: normpath_nonempty)

lemma find_project_root_nonempty:
  assumes "find_project_root e path = Some y"
  shows "y \<noteq> Inr []"
  using assms
  by (rule find_project_root.raw_induct [where P = "\<lambda>e path y. y \<noteq> Inr []", rotated])
     (auto split: if_splits dest: find_root_loop_nonempty)

lemma path_join_nonempty: "a \<noteq> [] \<Longrightarrow> path_join a b \<noteq> []"
  by (auto simp: path_join_def startswith_def)

lemma find_Some_mem: "find P xs = Some x \<Longrightarrow> x \<in> set xs"
  by (induction xs) (auto split: if_splits)

lemma flat_guesses_nonempty:
  assumes "src_root \<noteq> []" "g \<in> set (flat_guesses src_root sourcefile)"
  shows "g \<noteq> []"
  using assms by (auto simp: flat_guesses_def Let_def split_def path_join_nonempty)

section \<open>Where the relative path is right, and where its fallback is not\<close>

lemma common_len_same: "common_len xs xs = length xs"
  by (induction xs) auto

lemma os_relpath_same: "X \<noteq> [] \<Longrightarrow> os_relpath e X X = Inr ''.''"
  by (simp add: os_relpath_def Let_def common_len_same)

lemma relpath_fallback_same: "relpath_fallback e X X = Some (Inr ''.'')"
  by (simp add: relpath_fallback_def Let_def)

lemma relpath_same: "X \<noteq> [] \<Longrightarrow> relpath e X X try_stdlib = Some (Inr ''.'')"
  by (simp add: relpath_def os_relpath_same relpath_fallback_same)

lemma relpath_stdlib_child:
  assumes "has_relpath e" "isabs (getcwd e)" "base \<noteq> []" "segment child"
  shows "relpath e (base @ ''/'' @ child) base True = Some (Inr child)"
  using os_relpath_child [of e base "[child]"] assms by (simp add: relpath_def)

text \<open>The loop of the fallback ends as soon as some ancestor of \<open>fulls\<close> is a string
  prefix of \<open>fullp\<close>.\<close>

lemma strip_dirs_terminates:
  "startswith fullp ((dirname ^^ Suc k) fulls) \<Longrightarrow> \<exists>r. strip_dirs fullp fulls pp = Some r"
proof (induction k arbitrary: fulls pp)
  case 0
  then show ?case by (subst strip_dirs.simps) simp
next
  case (Suc k)
  have "startswith fullp ((dirname ^^ Suc k) (dirname fulls))"
    using Suc.prems by (simp only: funpow_Suc_right o_apply)
  from Suc.IH [OF this] obtain r where
    "strip_dirs fullp (dirname fulls) (pp @ [''..'']) = Some r" by blast
  then show ?case by (subst strip_dirs.simps) simp
qed

text \<open>It does not end for \<^verbatim>\<open>/b\<close> relative to \<^verbatim>\<open>//a\<close>: \<^verbatim>\<open>dirname\<close> stays at
  \<^verbatim>\<open>//\<close>, which is no prefix of \<^verbatim>\<open>/b\<close>.\<close>

lemma strip_dirs_double_slash:
  assumes "strip_dirs fullp fulls pp = Some r"
  shows "fullp = ''/b'' \<longrightarrow> fulls \<noteq> ''//a'' \<and> fulls \<noteq> ''//''"
  using assms
proof (rule strip_dirs.raw_induct
    [where P = "\<lambda>fullp fulls pp r. fullp = ''/b'' \<longrightarrow> fulls \<noteq> ''//a'' \<and> fulls \<noteq> ''//''", rotated])
  fix f fullp fulls pp r
  assume IH: "\<And>fullp fulls pp r. f fullp fulls pp = Some r
                \<Longrightarrow> fullp = ''/b'' \<longrightarrow> fulls \<noteq> ''//a'' \<and> fulls \<noteq> ''//''"
    and body: "(if startswith fullp (dirname fulls)
                then Some (pp @ [''..''], dirname fulls)
                else f fullp (dirname fulls) (pp @ [''..''])) = Some r"
  have d1: "dirname ''//a'' = ''//''" by code_simp
  have d2: "dirname ''//'' = ''//''" by code_simp
  have ns: "\<not> startswith ''/b'' ''//''" by code_simp
  show "fullp = ''/b'' \<longrightarrow> fulls \<noteq> ''//a'' \<and> fulls \<noteq> ''//''"
  proof (intro impI conjI notI)
    assume "fullp = ''/b''" "fulls = ''//a''"
    with body d1 ns have "f ''/b'' ''//'' (pp @ [''..'']) = Some r" by simp
    from IH [OF this] show False by simp
  next
    assume "fullp = ''/b''" "fulls = ''//''"
    with body d2 ns have "f ''/b'' ''//'' (pp @ [''..'']) = Some r" by simp
    from IH [OF this] show False by simp
  qed
qed

lemma relpath_fallback_loops: "relpath e ''/b'' ''//a'' False = None"
proof -
  have a1: "abspath e ''/b'' = ''/b''" by (simp add: abspath_def isabs_def startswith_def) code_simp
  have a2: "abspath e ''//a'' = ''//a''" by (simp add: abspath_def isabs_def startswith_def) code_simp
  have m: "normpath ''//a'' = ''//a''" by code_simp
  have "strip_dirs ''/b'' ''//a'' [] = None"
    using strip_dirs_double_slash [of "''/b''" "''//a''" "[]"] by (cases "strip_dirs ''/b'' ''//a'' []") auto
  then show ?thesis
    by (simp add: relpath_def relpath_fallback_def Let_def a1 a2 m endswith_def startswith_def)
qed

section \<open>The classification of the module\<close>

lemma is_fs_root_layout:
  "is_fs_root (e\<lparr>PyUnitTestsStructure := s\<rparr>) path = is_fs_root e path"
  by (simp add: is_fs_root_def is_home_dir_def)

lemma find_root_loop_layout_Some:
  assumes "find_root_loop e path = Some y"
  shows "find_root_loop (e\<lparr>PyUnitTestsStructure := s\<rparr>) path = Some y"
  using assms
proof (rule find_root_loop.raw_induct
    [where P = "\<lambda>e path y. find_root_loop (e\<lparr>PyUnitTestsStructure := s\<rparr>) path = Some y", rotated])
  fix f e path y
  assume IH: "\<And>e path y. f e path = Some y
                \<Longrightarrow> find_root_loop (e\<lparr>PyUnitTestsStructure := s\<rparr>) path = Some y"
    and body: "(if \<not> is_fs_root e path
                then if \<exists>i \<in> set (ProjRootIndicators e). exists e (path_join path i)
                     then Some (Inr (normpath path))
                     else f e (path_join path ''..'')
                else Some (Inl ProjectRootNotFound)) = Some y"
  show "find_root_loop (e\<lparr>PyUnitTestsStructure := s\<rparr>) path = Some y"
    using body IH
    by (subst find_root_loop.simps) (auto simp: is_fs_root_layout split: if_splits)
qed

lemma find_root_loop_layout:
  "find_root_loop (e\<lparr>PyUnitTestsStructure := s\<rparr>) path = find_root_loop e path"
proof (cases "find_root_loop e path")
  case (Some y)
  then show ?thesis by (simp add: find_root_loop_layout_Some)
next
  case None
  show ?thesis
  proof (cases "find_root_loop (e\<lparr>PyUnitTestsStructure := s\<rparr>) path")
    case None
    with \<open>find_root_loop e path = None\<close> show ?thesis by simp
  next
    case (Some y)
    from find_root_loop_layout_Some [OF this, of "PyUnitTestsStructure e"]
    have "find_root_loop e path = Some y" by simp
    with \<open>find_root_loop e path = None\<close> show ?thesis by simp
  qed
qed

lemma find_project_root_layout_Some:
  assumes "find_project_root e path = Some y"
  shows "find_project_root (e\<lparr>PyUnitTestsStructure := s\<rparr>) path = Some y"
  using assms
proof (rule find_project_root.raw_induct
    [where P = "\<lambda>e path y. find_project_root (e\<lparr>PyUnitTestsStructure := s\<rparr>) path = Some y", rotated])
  fix f e path y
  assume IH: "\<And>e path y. f e path = Some y
                \<Longrightarrow> find_project_root (e\<lparr>PyUnitTestsStructure := s\<rparr>) path = Some y"
    and body: "(if \<not> isdir e path then f e (dirname (realpath e path))
                else find_root_loop e path) = Some y"
  show "find_project_root (e\<lparr>PyUnitTestsStructure := s\<rparr>) path = Some y"
    using body IH
    by (subst find_project_root.simps) (auto simp: find_root_loop_layout split: if_splits)
qed

lemma find_project_root_layout:
  "find_project_root (e\<lparr>PyUnitTestsStructure := s\<rparr>) path = find_project_root e path"
proof (cases "find_project_root e path")
  case (Some y)
  then show ?thesis by (simp add: find_project_root_layout_Some)
next
  case None
  show ?thesis
  proof (cases "find_project_root (e\<lparr>PyUnitTestsStructure := s\<rparr>) path")
    case None
    with \<open>find_project_root e path = None\<close> show ?thesis by simp
  next
    case (Some y)
    from find_project_root_layout_Some [OF this, of "PyUnitTestsStructure e"]
    have "find_project_root e path = Some y" by simp
    with \<open>find_project_root e path = None\<close> show ?thesis by simp
  qed
qed

text \<open>The classification of the module does not look at the configured layout.\<close>

lemma abspath_layout: "abspath (e\<lparr>PyUnitTestsStructure := s\<rparr>) p = abspath e p"
  by (simp add: abspath_def)

lemma is_test_file_layout:
  "is_test_file (e\<lparr>PyUnitTestsStructure := s\<rparr>) path = is_test_file e path"
  by (simp add: is_test_file_def get_tests_root_def find_project_root_layout abspath_layout)

text \<open>It is the prefix test on the two absolute paths, and so true of every path under
  the tests root.\<close>

lemma is_test_file_prefix:
  assumes "find_project_root e path = Some (Inr root)"
  shows "is_test_file e path
         = Some (Inr (startswith (abspath e path)
                        (abspath e (root @ ''/'' @ PyUnitTestsRoot e))))"
  using assms by (simp add: is_test_file_def get_tests_root_def bind_res_def)

lemma startswith_longer: "startswith path (root @ s) \<Longrightarrow> startswith path root"
proof -
  assume "startswith path (root @ s)"
  then have "take (length root) (take (length (root @ s)) path) = take (length root) (root @ s)"
    by (simp only: startswith_def)
  then show ?thesis by (simp add: startswith_def min_def)
qed

lemma lies_under_startswith: "lies_under path root \<Longrightarrow> startswith path root"
  using startswith_longer [of path root "''/''"]
  by (auto simp: lies_under_def) (simp add: startswith_def)

lemma is_test_file_under_root:
  assumes "find_project_root e path = Some (Inr root)"
    and "lies_under (abspath e path) (abspath e (root @ ''/'' @ PyUnitTestsRoot e))"
  shows "is_test_file e path = Some (Inr True)"
  using assms by (simp add: is_test_file_prefix lies_under_startswith)

section \<open>The properties\<close>

text \<open>
  C1, as the code has it.  The claim is the round trip for every layout and every
  source path.  It fails where the mapping loses information: the flat layout splits
  a name with an underscore, the side-by-side layout maps a package's
  \<^verbatim>\<open>__init__.py\<close> to the test of a module, and a file without the \<^verbatim>\<open>.py\<close>
  extension gets one.
\<close>

theorem roundtrip_counterexample:
  "isfile example_env ''src/my_mod.py''
   \<and> get_test_file FlatLayout example_env ''src/my_mod.py'' = Some (Inr ''tests/test_my_mod.py'')
   \<and> get_source_candidates FlatLayout example_env ''tests/test_my_mod.py''
       = Some (Inr [''src/my/mod.py'', ''src/my/mod/__init__.py''])
   \<and> ''src/my_mod.py'' \<notin> set [''src/my/mod.py'', ''src/my/mod/__init__.py'']
   \<and> isfile example_env ''src/pkg/__init__.py''
   \<and> get_test_file SideBySideLayout example_env ''src/pkg/__init__.py''
       = Some (Inr ''src/test_pkg.py'')
   \<and> get_source_candidates SideBySideLayout example_env ''src/test_pkg.py''
       = Some (Inr [''src/pkg.py''])
   \<and> isfile example_env ''src/data.txt''
   \<and> get_test_file FollowHierarchyLayout example_env ''src/data.txt''
       = Some (Inr ''tests/test_data.txt.py'')
   \<and> get_source_candidates FollowHierarchyLayout example_env ''tests/test_data.txt.py''
       = Some (Inr [''src/data.txt.py'', ''src/data.txt/__init__.py''])"
  by code_simp

text \<open>
  C1, amended.  Let \<open>parts\<close> be the names of a module below the source root, each a
  path segment.  For the module file \<^verbatim>\<open>sourceRoot/parts.py\<close> (its last name not
  \<^verbatim>\<open>__init__\<close>) in every layout, and for the package file
  \<^verbatim>\<open>sourceRoot/parts/__init__.py\<close> in the flat and the follow-hierarchy layout,
  \<^verbatim>\<open>get_test_file\<close> returns a test file and \<^verbatim>\<open>get_source_candidates\<close> of that
  test file returns candidates that contain the source file, provided that in the flat
  layout no name has an underscore, that the test file is not itself named
  \<^verbatim>\<open>__init__.py\<close>, that the prefix has no separator and both roots are given, and
  that the interpreter provides \<^verbatim>\<open>os.path.relpath\<close>.
\<close>

theorem roundtrip_amended:
  assumes env: "isabs (getcwd e)" "has_relpath e"
      "PyUnitSourceRoot e \<noteq> []" "PyUnitTestsRoot e \<noteq> []"
      "CHR ''/'' \<notin> set (PyUnitTestPrefix e)"
    and parts: "parts \<noteq> []" "list_all segment parts"
    and S: "(S = join_str ''/'' (PyUnitSourceRoot e # butlast parts @ [last parts @ ''.py''])
              \<and> last parts \<noteq> ''__init__'')
            \<or> (S = join_str ''/'' (PyUnitSourceRoot e # parts @ [''__init__.py''])
              \<and> L \<noteq> SideBySideLayout)"
    and flat: "L = FlatLayout \<Longrightarrow> \<forall>p \<in> set parts. CHR ''_'' \<notin> set p"
    and test_name:
      "PyUnitTestPrefix e @ (if L = FlatLayout then join_str ''_'' parts else last parts)
         \<noteq> ''__init__''"
  shows "\<exists>t candidates.
           get_test_file L e S = Some (Inr t)
         \<and> get_source_candidates L e t = Some (Inr candidates)
         \<and> S \<in> set candidates"
proof -
  note bl = segment_butlast_last [OF parts]
  have nosl: "CHR ''/'' \<notin> set (last parts)" using bl(2) by (simp add: segment_def)
  have app: "butlast parts @ [last parts] = parts" using parts(1) by simp
  have init_eq: "join_str ''/'' (PyUnitSourceRoot e # butlast parts @ [last parts, ''__init__.py''])
                 = join_str ''/'' (PyUnitSourceRoot e # parts @ [''__init__.py''])"
    using app by (metis append.assoc append_Cons append_Nil)
  from S show ?thesis
  proof
    assume mod: "S = join_str ''/'' (PyUnitSourceRoot e # butlast parts @ [last parts @ ''.py''])
              \<and> last parts \<noteq> ''__init__''"
    show ?thesis
    proof (cases L)
      case FlatLayout
      have us: "\<forall>p \<in> set parts. CHR ''/'' \<notin> set p \<and> CHR ''_'' \<notin> set p"
        using flat [OF FlatLayout] parts(2) by (auto simp: list_all_iff segment_def)
      have nm: "PyUnitTestPrefix e @ join_str ''_'' parts \<noteq> ''__init__''"
        using test_name FlatLayout by simp
      from Flat_forward [OF env(1,2,3) bl(1) nosl] mod
        Flat_backward [OF env(1,2,4,5) parts(1) us nm]
      show ?thesis using FlatLayout app by simp
    next
      case FollowHierarchyLayout
      have nm: "PyUnitTestPrefix e @ last parts \<noteq> ''__init__''"
        using test_name FollowHierarchyLayout by simp
      from FollowHierarchy_forward [OF env(1,2,3) bl(1) nosl] mod
        FollowHierarchy_backward [OF env(1,2,4,5) bl(1) nosl nm]
      show ?thesis using FollowHierarchyLayout by simp
    next
      case SideBySideLayout
      have nm: "PyUnitTestPrefix e @ last parts \<noteq> ''__init__''"
        using test_name SideBySideLayout by simp
      have Seq: "S = join_str ''/'' (PyUnitSourceRoot e # butlast parts) @ CHR ''/'' # last parts @ ''.py''"
        using mod by (simp only: join_str_root_snoc)
      from SideBySide_forward [OF nosl, of e "join_str ''/'' (PyUnitSourceRoot e # butlast parts)"] mod
        SideBySide_backward [OF nosl env(5) nm, of "join_str ''/'' (PyUnitSourceRoot e # butlast parts)"]
      show ?thesis unfolding Seq using SideBySideLayout by simp
    qed
  next
    assume ini: "S = join_str ''/'' (PyUnitSourceRoot e # parts @ [''__init__.py''])
              \<and> L \<noteq> SideBySideLayout"
    then have Seq: "S = join_str ''/'' (PyUnitSourceRoot e # butlast parts @ [last parts, ''__init__.py''])"
      using init_eq by simp
    show ?thesis
    proof (cases L)
      case FlatLayout
      have us: "\<forall>p \<in> set parts. CHR ''/'' \<notin> set p \<and> CHR ''_'' \<notin> set p"
        using flat [OF FlatLayout] parts(2) by (auto simp: list_all_iff segment_def)
      have nm: "PyUnitTestPrefix e @ join_str ''_'' parts \<noteq> ''__init__''"
        using test_name FlatLayout by simp
      from Flat_forward_init [OF env(1,2,3) bl]
        Flat_backward [OF env(1,2,4,5) parts(1) us nm]
      show ?thesis unfolding Seq using FlatLayout app init_eq by simp
    next
      case FollowHierarchyLayout
      have nm: "PyUnitTestPrefix e @ last parts \<noteq> ''__init__''"
        using test_name FollowHierarchyLayout by simp
      from FollowHierarchy_forward_init [OF env(1,2,3) bl]
        FollowHierarchy_backward [OF env(1,2,4,5) bl(1) nosl nm]
      show ?thesis unfolding Seq using FollowHierarchyLayout by simp
    next
      case SideBySideLayout
      with ini show ?thesis by simp
    qed
  qed
qed

theorem roundtrip_amended_witness:
  "\<exists>t candidates.
     get_test_file FlatLayout example_env ''src/pkg/mod.py'' = Some (Inr t)
   \<and> get_source_candidates FlatLayout example_env t = Some (Inr candidates)
   \<and> ''src/pkg/mod.py'' \<in> set candidates"
  using roundtrip_amended [where e = example_env and parts = "[''pkg'', ''mod'']"
      and S = "''src/pkg/mod.py''" and L = FlatLayout]
  by (simp add: example_env_def segment_def isabs_def startswith_def)

text \<open>
  C2.  With the flat test structure, \<^verbatim>\<open>find_source_file_for_test_file\<close> takes the
  path relative to the tests root, strips the prefix, and splits the stem at the
  underscores into \<open>parts\<close>.  Its guesses are exactly the interlacings of the parts
  with a separator or an underscore between consecutive parts, followed by the bare
  extension or by \<^verbatim>\<open>/__init__\<close> and the extension, joined under the source root:
  \<open>2 ^ (n - 1)\<close> choices of separators times two endings.  It returns the first
  guess, in the order of the list, that is a file, and raises \<open>SourceFileNotFound\<close>
  when none is.  For the source file name \<^verbatim>\<open>pkg_mod.py\<close> (the test file
  \<^verbatim>\<open>tests/test_pkg_mod.py\<close>) under \<^verbatim>\<open>src\<close> the guesses are
  \<^verbatim>\<open>src/pkg/mod.py\<close>, \<^verbatim>\<open>src/pkg/mod/__init__.py\<close>, \<^verbatim>\<open>src/pkg_mod.py\<close> and
  \<^verbatim>\<open>src/pkg_mod/__init__.py\<close>.
\<close>

theorem flat_resolution:
  assumes flat: "PyUnitTestsStructure e = ''flat''"
    and root: "find_project_root e path = Some (Inr root)"
    and rel: "relpath e path (join_str ''/'' [root, PyUnitTestsRoot e]) True = Some (Inr rel_path)"
    and sourcefile: "sourcefile = join_str ''/''
        (map (\<lambda>p. strip_prefix p (PyUnitTestPrefix e)) (split_on CHR ''/'' rel_path))"
    and src_root: "src_root = path_join root (PyUnitSourceRoot e)"
    and parts: "parts = split_on CHR ''_'' (fst (splitext sourcefile))"
    and extension: "extension = snd (splitext sourcefile)"
    and guesses: "guesses = flat_guesses src_root sourcefile"
  shows "set guesses
           = {path_join src_root (concat (interlace parts (seps @ [final]))) | seps final.
                length seps = length parts - 1 \<and> set seps \<subseteq> {''/'', ''_''}
                \<and> final \<in> {extension, ''/__init__'' @ extension}}
       \<and> length guesses = 2 ^ (length parts - 1) * 2
       \<and> find_source_file_for_test_file e path
           = (case find (isfile e) guesses of
                None \<Rightarrow> Some (Inl SourceFileNotFound)
              | Some guess \<Rightarrow> Some (Inr guess))
       \<and> flat_guesses ''src'' ''pkg_mod.py''
           = [''src/pkg/mod.py'', ''src/pkg/mod/__init__.py'',
              ''src/pkg_mod.py'', ''src/pkg_mod/__init__.py'']"
proof (intro conjI)
  have g: "guesses = map (\<lambda>slashes. path_join src_root (concat (interlace parts slashes)))
             (slashgenerator (length parts - 1) [''/'', ''_''] [extension, ''/__init__'' @ extension])"
    unfolding guesses parts extension by (simp add: flat_guesses_def Let_def split_def)
  show "set guesses
           = {path_join src_root (concat (interlace parts (seps @ [final]))) | seps final.
                length seps = length parts - 1 \<and> set seps \<subseteq> {''/'', ''_''}
                \<and> final \<in> {extension, ''/__init__'' @ extension}}"
    unfolding g set_map set_slashgenerator by auto
  have "length guesses = length [''/'', ''_''] ^ (length parts - 1)
                           * length [extension, ''/__init__'' @ extension]"
    unfolding g length_map by (rule length_slashgenerator)
  also have "\<dots> = 2 ^ (length parts - 1) * 2"
    by (simp only: list.size One_nat_def add_Suc add_0 numeral_2_eq_2)
  finally show "length guesses = 2 ^ (length parts - 1) * 2" .
  have rootne: "root \<noteq> []"
    using find_project_root_nonempty [OF root] by auto
  then have srcne: "src_root \<noteq> []"
    unfolding src_root by (rule path_join_nonempty)
  have tr: "get_tests_root e path = Some (Inr (join_str ''/'' [root, PyUnitTestsRoot e]))"
    by (simp add: get_tests_root_def root bind_res_def)
  have sr: "find_source_root e path = Some (Inr src_root)"
    by (simp add: find_source_root_def root bind_res_def src_root)
  have body: "find_source_file_for_test_file e path
      = (case find (isfile e) guesses of
           None \<Rightarrow> Some (Inl SourceFileNotFound)
         | Some guess \<Rightarrow> if guess = [] then Some (Inl SourceFileNotFound) else Some (Inr guess))"
    unfolding find_source_file_for_test_file_def tr
    using rel sr flat by (simp add: bind_res_def Let_def sourcefile guesses)
  show "find_source_file_for_test_file e path
           = (case find (isfile e) guesses of
                None \<Rightarrow> Some (Inl SourceFileNotFound)
              | Some guess \<Rightarrow> Some (Inr guess))"
  proof (cases "find (isfile e) guesses")
    case None
    then show ?thesis by (simp add: body)
  next
    case (Some guess)
    then have "guess \<in> set guesses" by (rule find_Some_mem)
    then have "guess \<noteq> []"
      unfolding guesses using srcne flat_guesses_nonempty by blast
    with Some show ?thesis by (simp add: body)
  qed
  show "flat_guesses ''src'' ''pkg_mod.py''
           = [''src/pkg/mod.py'', ''src/pkg/mod/__init__.py'',
              ''src/pkg_mod.py'', ''src/pkg_mod/__init__.py'']"
    by code_simp
qed

theorem flat_resolution_witness:
  "find_source_file_for_test_file example_env ''tests/test_pkg_mod.py''
     = Some (Inr ''/proj/src/pkg/mod.py'')
   \<and> set (flat_guesses ''/proj/src'' ''pkg_mod.py'')
     = {''/proj/src/pkg/mod.py'', ''/proj/src/pkg/mod/__init__.py'',
        ''/proj/src/pkg_mod.py'', ''/proj/src/pkg_mod/__init__.py''}
   \<and> find_source_file_for_test_file example_env ''tests/test_missing.py''
     = Some (Inl SourceFileNotFound)"
proof (intro conjI)
  let ?e = example_env
  have flat: "PyUnitTestsStructure ?e = ''flat''" by code_simp
  have g: "flat_guesses ''/proj/src'' ''pkg_mod.py''
           = [''/proj/src/pkg/mod.py'', ''/proj/src/pkg/mod/__init__.py'',
              ''/proj/src/pkg_mod.py'', ''/proj/src/pkg_mod/__init__.py'']"
    by code_simp
  show "set (flat_guesses ''/proj/src'' ''pkg_mod.py'')
     = {''/proj/src/pkg/mod.py'', ''/proj/src/pkg/mod/__init__.py'',
        ''/proj/src/pkg_mod.py'', ''/proj/src/pkg_mod/__init__.py''}"
    unfolding g by simp
  have root: "find_project_root ?e ''tests/test_pkg_mod.py'' = Some (Inr ''/proj'')"
    by code_simp
  have rel: "relpath ?e ''tests/test_pkg_mod.py'' (join_str ''/'' [''/proj'', PyUnitTestsRoot ?e]) True
             = Some (Inr ''test_pkg_mod.py'')"
    by code_simp
  have sf: "''pkg_mod.py'' = join_str ''/''
        (map (\<lambda>p. strip_prefix p (PyUnitTestPrefix ?e)) (split_on CHR ''/'' ''test_pkg_mod.py''))"
    by code_simp
  have sr: "''/proj/src'' = path_join ''/proj'' (PyUnitSourceRoot ?e)"
    by code_simp
  have first: "find (isfile ?e) (flat_guesses ''/proj/src'' ''pkg_mod.py'')
               = Some ''/proj/src/pkg/mod.py''"
    by code_simp
  from flat_resolution [OF flat root rel sf sr refl refl refl] first
  show "find_source_file_for_test_file ?e ''tests/test_pkg_mod.py''
          = Some (Inr ''/proj/src/pkg/mod.py'')"
    by simp
  have root': "find_project_root ?e ''tests/test_missing.py'' = Some (Inr ''/proj'')"
    by code_simp
  have rel': "relpath ?e ''tests/test_missing.py'' (join_str ''/'' [''/proj'', PyUnitTestsRoot ?e]) True
             = Some (Inr ''test_missing.py'')"
    by code_simp
  have sf': "''missing.py'' = join_str ''/''
        (map (\<lambda>p. strip_prefix p (PyUnitTestPrefix ?e)) (split_on CHR ''/'' ''test_missing.py''))"
    by code_simp
  have none: "find (isfile ?e) (flat_guesses ''/proj/src'' ''missing.py'') = None"
    by code_simp
  from flat_resolution [OF flat root' rel' sf' sr refl refl refl] none
  show "find_source_file_for_test_file ?e ''tests/test_missing.py'' = Some (Inl SourceFileNotFound)"
    by simp
qed

text \<open>
  C3, at the failing input.  The claim asks \<^verbatim>\<open>is_test_file\<close> to be true exactly for
  the paths under the tests root.  For \<^verbatim>\<open>/proj/tests_extra/foo.py\<close>, in a directory
  beside the tests root \<^verbatim>\<open>/proj/tests\<close>, it returns true: the test is
  \<^verbatim>\<open>startswith\<close> on the two strings.
\<close>

theorem is_test_file_sibling_directory:
  "is_test_file example_env ''/proj/tests_extra/foo.py'' = Some (Inr True)
   \<and> get_tests_root example_env ''/proj/tests_extra/foo.py'' = Some (Inr ''/proj/tests'')
   \<and> \<not> lies_under (abspath example_env ''/proj/tests_extra/foo.py'')
                    (abspath example_env ''/proj/tests'')"
  by code_simp





text \<open>
  C6, as the code has it.  The claim counts the depth of the path relative to the test
  root.  The code counts the segments that \<^verbatim>\<open>break_down\<close> returns, and
  \<^verbatim>\<open>break_down\<close> drops a final \<^verbatim>\<open>__init__.py\<close>: a package file one directory
  below the test root has depth two and gets its two candidates, and
  \<^verbatim>\<open>__init__.py\<close> in the test root has depth one and is refused.
\<close>

theorem Flat_depth_counterexample:
  "startswith ''tests/test_pkg/__init__.py'' (PyUnitTestsRoot example_env)
   \<and> relpath example_env ''tests/test_pkg/__init__.py'' (PyUnitTestsRoot example_env) True
       = Some (Inr ''test_pkg/__init__.py'')
   \<and> split_on CHR ''/'' ''test_pkg/__init__.py'' = [''test_pkg'', ''__init__.py'']
   \<and> Flat_get_source_candidates example_env ''tests/test_pkg/__init__.py''
       = Some (Inr [''src/pkg.py'', ''src/pkg/__init__.py''])
   \<and> relpath example_env ''tests/__init__.py'' (PyUnitTestsRoot example_env) True
       = Some (Inr ''__init__.py'')
   \<and> split_on CHR ''/'' ''__init__.py'' = [''__init__.py'']
   \<and> Flat_get_source_candidates example_env ''tests/__init__.py''
       = Some (Inl InvalidTestPath)"
  by code_simp

text \<open>
  C6, amended.  In the flat layout, for a test file whose name starts with the test
  root and whose path relative to the test root is \<open>rel\<close>,
  \<^verbatim>\<open>get_source_candidates\<close> raises \<open>InvalidTestPath\<close> whenever the depth of
  \<open>rel\<close>, counted without a final \<^verbatim>\<open>__init__.py\<close>, is not 1; otherwise it returns
  exactly two candidates, the module and the package that the names between the
  underscores of the stripped file name spell under the source root.
\<close>

theorem Flat_candidates_amended:
  assumes "startswith test_file (PyUnitTestsRoot e)"
    and "relpath e test_file (PyUnitTestsRoot e) True = Some (Inr rel)"
  shows "Flat_get_source_candidates e test_file
         = (let segs = split_on CHR ''/'' rel;
                depth = (if last segs = ''__init__.py'' then length segs - 1 else length segs)
            in if depth \<noteq> 1 then Some (Inl InvalidTestPath)
               else let name = strip_prefix (hd (break_down rel)) (PyUnitTestPrefix e);
                        parts = split_on CHR ''_'' name
                    in Some (Inr [join_str ''/'' (PyUnitSourceRoot e
                                     # butlast parts @ [last parts @ ''.py'']),
                                  join_str ''/'' (PyUnitSourceRoot e
                                     # parts @ [''__init__.py''])]))"
proof (cases "length (break_down rel) = 1")
  case True
  then have hd: "break_down rel ! 0 = hd (break_down rel)"
    by (cases "break_down rel") auto
  show ?thesis
    using assms True hd length_break_down [of rel]
    by (simp add: Flat_get_source_candidates_def bind_res_def Let_def
        glue_both_Cons split_on_nonempty)
next
  case False
  then show ?thesis
    using assms length_break_down [of rel]
    by (simp add: Flat_get_source_candidates_def bind_res_def Let_def)
qed

theorem Flat_candidates_amended_witness:
  "Flat_get_source_candidates example_env ''tests/test_pkg_mod.py''
   = Some (Inr [''src/pkg/mod.py'', ''src/pkg/mod/__init__.py''])"
proof -
  have st: "startswith ''tests/test_pkg_mod.py'' (PyUnitTestsRoot example_env)"
    by code_simp
  have rel: "relpath example_env ''tests/test_pkg_mod.py'' (PyUnitTestsRoot example_env) True
             = Some (Inr ''test_pkg_mod.py'')"
    by code_simp
  have bd: "break_down ''test_pkg_mod.py'' = [''test_pkg_mod'']"
    by code_simp
  show ?thesis
    unfolding Flat_candidates_amended [OF st rel] bd
    by (simp add: example_env_def strip_prefix_def startswith_def)
qed

text \<open>
  C7, at the failing input.  The claim asks \<^verbatim>\<open>_relpath(base/child, base)\<close> to be
  \<^verbatim>\<open>child\<close> for every base.  In the project directory \<^verbatim>\<open>/proj\<close> the module's own
  implementation, reached with \<^verbatim>\<open>try_stdlib=False\<close> or on an interpreter without
  \<^verbatim>\<open>os.path.relpath\<close>, returns \<^verbatim>\<open>../src/foo.py\<close> for \<^verbatim>\<open>src/foo.py\<close> relative to
  \<^verbatim>\<open>src\<close>; the standard library's function, which it is written to replace, returns
  \<^verbatim>\<open>foo.py\<close>.
\<close>

theorem relpath_fallback_relative_base:
  "relpath example_env ''src/foo.py'' ''src'' False = Some (Inr ''../src/foo.py'')
   \<and> relpath (example_env\<lparr>has_relpath := False\<rparr>) ''src/foo.py'' ''src'' True
       = Some (Inr ''../src/foo.py'')
   \<and> relpath example_env ''src/foo.py'' ''src'' True = Some (Inr ''foo.py'')"
  by code_simp



text \<open>
  C9.  The stop condition is tested before the indicators: when the search reaches a
  stop boundary in round \<open>k\<close> without an indicator before it,
  \<^verbatim>\<open>find_project_root\<close> raises \<open>ProjectRootNotFound\<close> even though the boundary
  directory itself holds an indicator.
\<close>

theorem boundary_indicator_ignored:
  assumes start: "(isdir e path \<and> d = path)
           \<or> (\<not> isdir e path \<and> d = dirname (realpath e path) \<and> isdir e d)"
    and before: "\<forall>j<k. \<not> is_fs_root e (ascend j d) \<and> \<not> has_indicator e (ascend j d)"
    and boundary: "is_fs_root e (ascend k d)"
    and indicator: "has_indicator e (ascend k d)"
  shows "find_project_root e path = Some (Inl ProjectRootNotFound)"
  using find_project_root_start [OF start] find_root_loop_ascend [OF before] boundary
  by (simp add: find_root_loop_stop)

theorem boundary_indicator_ignored_witness:
  "has_indicator (example_env\<lparr>ProjRootStopAtHomeDir := 1, HOME := ''/proj''\<rparr>) ''/proj''
   \<and> find_project_root (example_env\<lparr>ProjRootStopAtHomeDir := 1, HOME := ''/proj''\<rparr>)
        ''tests/test_pkg_mod.py''
       = Some (Inl ProjectRootNotFound)
   \<and> has_indicator (example_env\<lparr>ProjRootIndicators := [''proj'']\<rparr>) ''/''
   \<and> find_project_root (example_env\<lparr>ProjRootIndicators := [''proj'']\<rparr>) ''/proj/src''
       = Some (Inl ProjectRootNotFound)"
proof (intro conjI)
  let ?e = "example_env\<lparr>ProjRootStopAtHomeDir := 1, HOME := ''/proj''\<rparr>"
  let ?p = "''tests/test_pkg_mod.py''" and ?d = "''/proj/tests''"
  show "has_indicator ?e ''/proj''" by code_simp
  have start: "(isdir ?e ?p \<and> ?d = ?p)
      \<or> (\<not> isdir ?e ?p \<and> ?d = dirname (realpath ?e ?p) \<and> isdir ?e ?d)"
    by code_simp
  have before: "\<forall>j<Suc 0. \<not> is_fs_root ?e (ascend j ?d) \<and> \<not> has_indicator ?e (ascend j ?d)"
  proof (intro allI impI)
    fix j :: nat
    assume "j < Suc 0"
    then have j: "j = 0" by simp
    show "\<not> is_fs_root ?e (ascend j ?d) \<and> \<not> has_indicator ?e (ascend j ?d)"
      unfolding j by code_simp
  qed
  have boundary: "is_fs_root ?e (ascend (Suc 0) ?d)" by code_simp
  have indicator: "has_indicator ?e (ascend (Suc 0) ?d)" by code_simp
  show "find_project_root ?e ?p = Some (Inl ProjectRootNotFound)"
    by (rule boundary_indicator_ignored [OF start before boundary indicator])
next
  let ?e = "example_env\<lparr>ProjRootIndicators := [''proj'']\<rparr>"
  let ?p = "''/proj/src''"
  show "has_indicator ?e ''/''" by code_simp
  have start: "(isdir ?e ?p \<and> ?p = ?p)
      \<or> (\<not> isdir ?e ?p \<and> ?p = dirname (realpath ?e ?p) \<and> isdir ?e ?p)"
    by code_simp
  have before: "\<forall>j<Suc (Suc 0). \<not> is_fs_root ?e (ascend j ?p) \<and> \<not> has_indicator ?e (ascend j ?p)"
  proof (intro allI impI)
    fix j :: nat
    assume "j < Suc (Suc 0)"
    then consider "j = 0" | "j = Suc 0" by (auto simp: less_Suc_eq)
    then show "\<not> is_fs_root ?e (ascend j ?p) \<and> \<not> has_indicator ?e (ascend j ?p)"
    proof cases
      case 1
      show ?thesis unfolding 1 by code_simp
    next
      case 2
      show ?thesis unfolding 2 by code_simp
    qed
  qed
  have boundary: "is_fs_root ?e (ascend (Suc (Suc 0)) ?p)" by code_simp
  have indicator: "has_indicator ?e (ascend (Suc (Suc 0)) ?p)" by code_simp
  show "find_project_root ?e ?p = Some (Inl ProjectRootNotFound)"
    by (rule boundary_indicator_ignored [OF start before boundary indicator])
qed

text \<open>
  C10.  For the path \<^verbatim>\<open>__init__.py\<close>, without a directory, \<^verbatim>\<open>break_down\<close>
  returns the empty list, and \<^verbatim>\<open>is_test_file\<close> and \<^verbatim>\<open>get_test_file\<close> of the
  side-by-side layout then read the last element of that empty list: both raise
  \<^verbatim>\<open>IndexError\<close>, whatever the configuration.
\<close>

theorem init_only_path_raises:
  "break_down ''__init__.py'' = []
   \<and> SideBySide_is_test_file e ''__init__.py'' = Inl IndexError
   \<and> SideBySide_get_test_file e ''__init__.py'' = Inl IndexError"
  by (simp add: break_down_def SideBySide_is_test_file_def SideBySide_get_test_file_def)

end
